theory Spec2Isabelle
  imports Complex_Main "HOL-Library.Multiset"
begin

section \<open>Numbers of the engine\<close>

text \<open>
  The engine computes on Python and numpy floats. They are modelled as the real numbers
  extended by one not-a-number value: \<open>NaN\<close> is what pandas stores for a blank cell and
  what \<open>pd.to_numeric(..., errors="coerce")\<close> yields for text. Rounding error, overflow and
  the infinities of IEEE arithmetic are not modelled here; the exposure formulas, where they
  decide the result, have a float type of their own below.
\<close>

datatype pyfloat = NaN | Num real

section \<open>Grouping a column by strike (pandas groupby/sum)\<close>

text \<open>
  \<open>df.groupby("strikePrice")[col].sum()\<close>: one entry for every strike that occurs, keys in
  ascending order, rows whose strike is NaN dropped, NaN values skipped by the sum.
  A data frame is given by the list of its rows, each a pair of the strike cell and the
  cell of the summed column.
\<close>

definition group_keys :: "(pyfloat \<times> pyfloat) list \<Rightarrow> real list" where
  "group_keys rows = sort (remdups (concat (map (\<lambda>(k, v). case k of NaN \<Rightarrow> [] | Num s \<Rightarrow> [s]) rows)))"

definition group_sum :: "(pyfloat \<times> pyfloat) list \<Rightarrow> real \<Rightarrow> real" where
  "group_sum rows s =
     sum_list (concat (map (\<lambda>(k, v). case v of NaN \<Rightarrow> [] | Num x \<Rightarrow> (if k = Num s then [x] else [])) rows))"

definition groupby_sum :: "(pyfloat \<times> pyfloat) list \<Rightarrow> (real \<times> real) list" where
  "groupby_sum rows = map (\<lambda>s. (s, group_sum rows s)) (group_keys rows)"

section \<open>Gamma flip (ratio.py, process_file)\<close>

text \<open>
  \<open>gex_by_strike = df.groupby("strikePrice")["GEX"].sum().sort_index(ascending=False)\<close>
  and \<open>cumulative_gex = gex_by_strike.cumsum()\<close>.
\<close>

definition gex_by_strike :: "(pyfloat \<times> pyfloat) list \<Rightarrow> (real \<times> real) list" where
  "gex_by_strike rows = rev (groupby_sum rows)"

fun cumsum_from :: "real \<Rightarrow> real list \<Rightarrow> real list" where
  "cumsum_from acc [] = []"
| "cumsum_from acc (x # xs) = (acc + x) # cumsum_from (acc + x) xs"

definition cumsum :: "real list \<Rightarrow> real list" where
  "cumsum xs = cumsum_from 0 xs"

definition cumulative_gex :: "(real \<times> real) list \<Rightarrow> (real \<times> real) list" where
  "cumulative_gex g = zip (map fst g) (cumsum (map snd g))"

text \<open>The interpolation both methods apply to the bracketing pair of strikes.\<close>

definition interpolate :: "real \<Rightarrow> real \<Rightarrow> real \<Rightarrow> real \<Rightarrow> real" where
  "interpolate strike1 gex1 strike2 gex2 =
     (let fraction = gex1 / (gex1 - gex2) in strike1 - fraction * (strike1 - strike2))"

text \<open>
  The iterative method: the loop over \<open>cumulative_gex.items()\<close>. The first argument is the
  pair \<open>(prev_strike, prev_cum_gex)\<close>, \<open>None\<close> before the first item; the loop breaks at the
  first item where the previous running sum is positive and the current one negative.
\<close>

fun cum_scan :: "(real \<times> real) option \<Rightarrow> (real \<times> real) list \<Rightarrow> real option" where
  "cum_scan prev [] = None"
| "cum_scan None ((strike, cum_value) # rest) = cum_scan (Some (strike, cum_value)) rest"
| "cum_scan (Some (prev_strike, prev_cum_gex)) ((strike, cum_value) # rest) =
     (if prev_cum_gex > 0 \<and> cum_value < 0
      then Some (interpolate prev_strike prev_cum_gex strike cum_value)
      else cum_scan (Some (strike, cum_value)) rest)"

definition cum_gam :: "(real \<times> real) list \<Rightarrow> real option" where
  "cum_gam g = cum_scan None (cumulative_gex g)"

text \<open>
  The vectorized method: \<open>np.where(np.diff(np.sign(totalGamma)))[0]\<close> lists the indices
  whose sign differs from the next one's; the first of them is interpolated.
\<close>

definition np_sign :: "real \<Rightarrow> real" where
  "np_sign x = (if x > 0 then 1 else if x < 0 then - 1 else 0)"

fun np_diff :: "real list \<Rightarrow> real list" where
  "np_diff (x # y # xs) = (y - x) # np_diff (y # xs)"
| "np_diff xs = []"

definition np_where :: "real list \<Rightarrow> nat list" where
  "np_where xs = filter (\<lambda>i. xs ! i \<noteq> 0) [0 ..< length xs]"

definition vec_gam :: "(real \<times> real) list \<Rightarrow> real option" where
  "vec_gam g =
     (let levels = map fst g;
          totalGamma = cumsum (map snd g);
          zeroCrossIdx = np_where (np_diff (map np_sign totalGamma))
      in case zeroCrossIdx of
           [] \<Rightarrow> None
         | i # _ \<Rightarrow>
             (let negGamma = totalGamma ! i;
                  posGamma = totalGamma ! (i + 1);
                  negStrike = levels ! i;
                  posStrike = levels ! (i + 1)
              in Some (interpolate negStrike negGamma posStrike posGamma)))"

text \<open>
  The two values \<open>process_file\<close> writes to the columns \<open>cum_gam\<close> and \<open>cum_vec\<close>, for a
  frame that has the column \<open>strikePrice\<close> (without it both stay \<open>None\<close>).
\<close>

definition gamma_flips :: "(pyfloat \<times> pyfloat) list \<Rightarrow> real option \<times> real option" where
  "gamma_flips rows = (let g = gex_by_strike rows in (cum_gam g, vec_gam g))"

section \<open>Arithmetic on floats\<close>

text \<open>
  The arithmetic of the formulas below, on \<open>pyfloat\<close>: a NaN operand gives NaN, and every
  comparison with NaN is false. Division by zero, which numpy answers with an infinity or
  NaN and a warning, is NaN here, as is the logarithm of a number that is not positive and
  the square root of a negative one. numpy arithmetic on floats warns but does not raise,
  so the \<open>except\<close> clauses around the formulas are reached only where a solver raises
  or a value that is not a number is compared; those are the cases the model keeps.
\<close>

instantiation pyfloat :: "{zero, one, plus, minus, uminus, times, inverse, ord}"
begin

definition zero_pyfloat :: pyfloat where
  "zero_pyfloat = Num 0"

definition one_pyfloat :: pyfloat where
  "one_pyfloat = Num 1"

definition plus_pyfloat :: "pyfloat \<Rightarrow> pyfloat \<Rightarrow> pyfloat" where
  "plus_pyfloat a b = (case (a, b) of (Num x, Num y) \<Rightarrow> Num (x + y) | _ \<Rightarrow> NaN)"

definition minus_pyfloat :: "pyfloat \<Rightarrow> pyfloat \<Rightarrow> pyfloat" where
  "minus_pyfloat a b = (case (a, b) of (Num x, Num y) \<Rightarrow> Num (x - y) | _ \<Rightarrow> NaN)"

definition uminus_pyfloat :: "pyfloat \<Rightarrow> pyfloat" where
  "uminus_pyfloat a = (case a of Num x \<Rightarrow> Num (- x) | NaN \<Rightarrow> NaN)"

definition times_pyfloat :: "pyfloat \<Rightarrow> pyfloat \<Rightarrow> pyfloat" where
  "times_pyfloat a b = (case (a, b) of (Num x, Num y) \<Rightarrow> Num (x * y) | _ \<Rightarrow> NaN)"

definition divide_pyfloat :: "pyfloat \<Rightarrow> pyfloat \<Rightarrow> pyfloat" where
  "divide_pyfloat a b =
     (case (a, b) of (Num x, Num y) \<Rightarrow> (if y = 0 then NaN else Num (x / y)) | _ \<Rightarrow> NaN)"

definition inverse_pyfloat :: "pyfloat \<Rightarrow> pyfloat" where
  "inverse_pyfloat a = (case a of Num x \<Rightarrow> (if x = 0 then NaN else Num (1 / x)) | NaN \<Rightarrow> NaN)"

definition less_eq_pyfloat :: "pyfloat \<Rightarrow> pyfloat \<Rightarrow> bool" where
  "less_eq_pyfloat a b = (case (a, b) of (Num x, Num y) \<Rightarrow> x \<le> y | _ \<Rightarrow> False)"

definition less_pyfloat :: "pyfloat \<Rightarrow> pyfloat \<Rightarrow> bool" where
  "less_pyfloat a b = (case (a, b) of (Num x, Num y) \<Rightarrow> x < y | _ \<Rightarrow> False)"

instance ..

end

instance pyfloat :: power ..

definition isnan :: "pyfloat \<Rightarrow> bool" where
  "isnan a = (a = NaN)"

text \<open>
  Python's \<open>max(a, b)\<close> and \<open>min(a, b)\<close> keep the first argument unless the second is
  strictly larger (smaller).
\<close>

definition py_max :: "pyfloat \<Rightarrow> pyfloat \<Rightarrow> pyfloat" where
  "py_max a b = (if b > a then b else a)"

definition py_min :: "pyfloat \<Rightarrow> pyfloat \<Rightarrow> pyfloat" where
  "py_min a b = (if b < a then b else a)"

definition np_log :: "pyfloat \<Rightarrow> pyfloat" where
  "np_log a = (case a of Num x \<Rightarrow> (if x > 0 then Num (ln x) else NaN) | NaN \<Rightarrow> NaN)"

definition np_sqrt :: "pyfloat \<Rightarrow> pyfloat" where
  "np_sqrt a = (case a of Num x \<Rightarrow> (if x \<ge> 0 then Num (sqrt x) else NaN) | NaN \<Rightarrow> NaN)"

definition np_exp :: "pyfloat \<Rightarrow> pyfloat" where
  "np_exp a = (case a of Num x \<Rightarrow> Num (exp x) | NaN \<Rightarrow> NaN)"

text \<open>
  \<open>scipy.stats.norm\<close>: the density of the standard normal distribution, and its
  distribution function, written as its Maclaurin series.
\<close>

definition std_normal_pdf :: "real \<Rightarrow> real" where
  "std_normal_pdf x = exp (- (x ^ 2) / 2) / sqrt (2 * pi)"

definition std_normal_cdf :: "real \<Rightarrow> real" where
  "std_normal_cdf x =
     1 / 2 + (\<Sum>n. (- 1) ^ n * x ^ (2 * n + 1) / (2 ^ n * fact n * of_nat (2 * n + 1))) / sqrt (2 * pi)"

definition norm_pdf :: "pyfloat \<Rightarrow> pyfloat" where
  "norm_pdf a = (case a of Num x \<Rightarrow> Num (std_normal_pdf x) | NaN \<Rightarrow> NaN)"

definition norm_cdf :: "pyfloat \<Rightarrow> pyfloat" where
  "norm_cdf a = (case a of Num x \<Rightarrow> Num (std_normal_cdf x) | NaN \<Rightarrow> NaN)"

text \<open>
  Python's built-in \<open>round\<close> with one argument: to the nearest integer, a tie to the
  even one.
\<close>

definition py_round :: "real \<Rightarrow> int" where
  "py_round x =
     (let f = \<lfloor>x\<rfloor>; d = x - of_int f
      in if d < 1 / 2 then f else if d > 1 / 2 then f + 1 else if even f then f else f + 1)"

section \<open>Rows, cells and strings\<close>

text \<open>
  A row of a data frame (a pandas Series, or the dictionary made from it) maps column
  names to cells. A cell holds Python's \<open>None\<close>, a float or a string.
  \<open>row.get(k)\<close> is \<open>None\<close> for a column the row does not have.
\<close>

datatype cell = PyNone | Flt pyfloat | Str string

type_synonym row = "string \<Rightarrow> cell option"

definition row_get :: "row \<Rightarrow> string \<Rightarrow> cell" where
  "row_get row k = (case row k of None \<Rightarrow> PyNone | Some c \<Rightarrow> c)"

text \<open>
  Truth value of a cell, as \<open>or\<close> and \<open>not\<close> read it: \<open>None\<close>, zero and the empty
  string are false, everything else is true, NaN included.
\<close>

definition truthy :: "cell \<Rightarrow> bool" where
  "truthy c = (case c of PyNone \<Rightarrow> False | Flt NaN \<Rightarrow> True | Flt (Num x) \<Rightarrow> x \<noteq> 0 | Str s \<Rightarrow> s \<noteq> [])"

definition py_or :: "cell \<Rightarrow> cell \<Rightarrow> cell" where
  "py_or a b = (if truthy a then a else b)"

text \<open>\<open>str.upper\<close> on ASCII letters.\<close>

definition char_upper :: "char \<Rightarrow> char" where
  "char_upper c =
     (case map_of (zip ''abcdefghijklmnopqrstuvwxyz'' ''ABCDEFGHIJKLMNOPQRSTUVWXYZ'') c of
        None \<Rightarrow> c
      | Some u \<Rightarrow> u)"

definition upper :: "string \<Rightarrow> string" where
  "upper s = map char_upper s"

text \<open>
  The exceptions the numerical code can meet, and the two scipy root finders, which are
  library code and enter the model as parameters: \<open>newton(func, x0, fprime, tol, maxiter)\<close>
  and \<open>brentq(f, a, b, xtol)\<close> return a root or raise.
\<close>

datatype py_error = RuntimeError | OverflowError | ZeroDivisionError | ValueError | TypeError | OtherError

type_synonym newton_fn =
  "(pyfloat \<Rightarrow> pyfloat) \<Rightarrow> pyfloat \<Rightarrow> (pyfloat \<Rightarrow> pyfloat) \<Rightarrow> pyfloat \<Rightarrow> nat \<Rightarrow> py_error + pyfloat"

type_synonym brentq_fn =
  "(pyfloat \<Rightarrow> py_error + pyfloat) \<Rightarrow> pyfloat \<Rightarrow> pyfloat \<Rightarrow> pyfloat \<Rightarrow> py_error + pyfloat"

text \<open>
  The check \<open>param is None or param <= 0\<close> of \<open>process_row\<close> in grok.py and
  hybrid_one.py. Comparing a string with a number raises, and the \<open>except\<close> clause of
  \<open>process_row\<close> returns \<open>None\<close> as the check itself does, so a string is rejected too.
\<close>

definition param_rejected :: "cell \<Rightarrow> bool" where
  "param_rejected c = (case c of PyNone \<Rightarrow> True | Flt x \<Rightarrow> x \<le> Num 0 | Str s \<Rightarrow> True)"

section \<open>Derivative-guided solver (grok.py)\<close>

definition grok_d1 :: "pyfloat \<Rightarrow> pyfloat \<Rightarrow> pyfloat \<Rightarrow> pyfloat \<Rightarrow> pyfloat \<Rightarrow> pyfloat" where
  "grok_d1 S K T r sigma =
     (if sigma \<le> Num 0 \<or> T \<le> Num 0 then NaN
      else let capped_sigma = py_min sigma (Num 10)
           in (np_log (S / K) + (r + Num 0.5 * capped_sigma ^ 2) * T) / (capped_sigma * np_sqrt T))"

definition grok_d2 :: "pyfloat \<Rightarrow> pyfloat \<Rightarrow> pyfloat \<Rightarrow> pyfloat \<Rightarrow> pyfloat \<Rightarrow> pyfloat" where
  "grok_d2 S K T r sigma = grok_d1 S K T r sigma - sigma * np_sqrt T"

definition grok_black_scholes ::
  "pyfloat \<Rightarrow> pyfloat \<Rightarrow> pyfloat \<Rightarrow> pyfloat \<Rightarrow> pyfloat \<Rightarrow> string \<Rightarrow> pyfloat" where
  "grok_black_scholes S K T r sigma option_type =
     (let d1_val = grok_d1 S K T r sigma;
          d2_val = grok_d2 S K T r sigma
      in if upper option_type = ''CALL''
         then S * norm_cdf d1_val - K * np_exp (- r * T) * norm_cdf d2_val
         else if upper option_type = ''PUT''
         then K * np_exp (- r * T) * norm_cdf (- d2_val) - S * norm_cdf (- d1_val)
         else NaN)"

text \<open>
  \<open>implied_volatility\<close>: Newton's method from 0.5 with the vega as derivative. A result
  above 10 or not positive becomes NaN, as does a RuntimeError, OverflowError or
  ZeroDivisionError of the solver; any other exception leaves the function.
\<close>

definition grok_implied_volatility ::
  "newton_fn \<Rightarrow> pyfloat \<Rightarrow> pyfloat \<Rightarrow> pyfloat \<Rightarrow> pyfloat \<Rightarrow> pyfloat \<Rightarrow> string \<Rightarrow> py_error + pyfloat" where
  "grok_implied_volatility newton price S K T r option_type =
     (let vega = (\<lambda>sigma. S * norm_pdf (grok_d1 S K T r sigma) * np_sqrt T);
          sigma_initial = Num 0.5;
          max_sigma = Num 10
      in case newton (\<lambda>x. grok_black_scholes S K T r x option_type - price) sigma_initial vega
                (Num (1 / 10 ^ 6)) 100 of
           Inr sigma_est \<Rightarrow>
             Inr (if sigma_est > max_sigma \<or> sigma_est \<le> Num 0 then NaN else sigma_est)
         | Inl e \<Rightarrow>
             (if e = RuntimeError \<or> e = OverflowError \<or> e = ZeroDivisionError then Inr NaN
              else Inl e))"

definition grok_calculate_greeks ::
  "pyfloat \<Rightarrow> pyfloat \<Rightarrow> pyfloat \<Rightarrow> pyfloat \<Rightarrow> pyfloat \<Rightarrow> string \<Rightarrow> (string \<Rightarrow> pyfloat option) option" where
  "grok_calculate_greeks S K T r sigma option_type =
     (if sigma \<le> Num 0 \<or> S \<le> Num 0 \<or> K \<le> Num 0 \<or> T \<le> Num 0 then None
      else let d1_val = grok_d1 S K T r sigma;
               d2_val = grok_d2 S K T r sigma;
               delta = (if upper option_type = ''CALL'' then norm_cdf d1_val
                        else norm_cdf d1_val - Num 1);
               gamma = norm_pdf d1_val / (S * sigma * np_sqrt T);
               vega = S * norm_pdf d1_val * np_sqrt T;
               theta_call = (- S * norm_pdf d1_val * sigma) / (Num 2 * np_sqrt T)
                            - r * K * np_exp (- r * T) * norm_cdf d2_val;
               theta_put = (- S * norm_pdf d1_val * sigma) / (Num 2 * np_sqrt T)
                           + r * K * np_exp (- r * T) * norm_cdf (- d2_val);
               theta = (if upper option_type = ''CALL'' then theta_call else theta_put);
               rho_call = K * T * np_exp (- r * T) * norm_cdf d2_val;
               rho_put = - K * T * np_exp (- r * T) * norm_cdf (- d2_val);
               rho = (if upper option_type = ''CALL'' then rho_call else rho_put);
               vanna = d1_val * gamma;
               charm = - norm_pdf d1_val
                       * ((Num 2 * r * T - d2_val * sigma * np_sqrt T) / (Num 2 * T))
           in Some (map_of [(''delta'', delta), (''gamma'', gamma), (''vega'', vega),
                            (''theta'', theta), (''rho'', rho), (''vanna'', vanna),
                            (''charm'', charm)]))"

text \<open>
  The market price \<open>process_row\<close> solves for:
  \<open>row.get("mid") or row.get("mark") or row.get("last")\<close>.
\<close>

definition grok_market_price :: "row \<Rightarrow> cell" where
  "grok_market_price row = py_or (py_or (row_get row ''mid'') (row_get row ''mark'')) (row_get row ''last'')"

text \<open>
  \<open>process_row\<close>: \<open>None\<close> for a rejected row, else the row extended by the implied
  volatility and the Greeks. The expiration date is taken as already parsed (the source
  parses a string date first and returns \<open>None\<close> when that raises); a row without the
  column is rejected. An option type that is true but not a string raises on
  \<open>upper\<close>, which also ends in \<open>None\<close>.
\<close>

definition grok_process_row :: "newton_fn \<Rightarrow> row \<Rightarrow> row option" where
  "grok_process_row newton row =
     (if row ''expirationDate'' = None then None
      else let S = row_get row ''spotPrice'';
               K = row_get row ''strikePrice'';
               T = row_get row ''T'';
               r = row_get row ''SOFR'';
               option_type = row_get row ''putCall'';
               market_price = grok_market_price row
           in if list_ex param_rejected [S, K, T, r, market_price] \<or> \<not> truthy option_type then None
              else (case (S, K, T, r, market_price, option_type) of
                      (Flt S', Flt K', Flt T', Flt r', Flt price, Str ot) \<Rightarrow>
                        (case grok_implied_volatility newton price S' K' T' r' ot of
                           Inl e \<Rightarrow> None
                         | Inr iv \<Rightarrow>
                             (if isnan iv then None
                              else (case grok_calculate_greeks S' K' T' r' iv ot of
                                      None \<Rightarrow> None
                                    | Some greeks \<Rightarrow>
                                        Some (row ++ [''impliedVolatility'' \<mapsto> Flt iv]
                                                  ++ (map_option Flt \<circ> greeks)))))
                    | _ \<Rightarrow> None))"

section \<open>Closed-form estimate with refinement (hybrid_one.py)\<close>

definition closed_form_iv ::
  "pyfloat \<Rightarrow> pyfloat \<Rightarrow> pyfloat \<Rightarrow> pyfloat \<Rightarrow> string \<Rightarrow> pyfloat \<Rightarrow> pyfloat" where
  "closed_form_iv S K T r option_type observed_price =
     (if observed_price \<le> Num 0 \<or> S \<le> Num 0 \<or> K \<le> Num 0 \<or> T \<le> Num 0 then NaN
      else let intrinsic_value = (if upper option_type = ''CALL'' then py_max (Num 0) (S - K)
                                  else py_max (Num 0) (K - S))
           in if observed_price \<le> intrinsic_value then Num 0
              else let moneyness = np_log (S / K);
                       volatility_estimate = (observed_price / S) * np_sqrt (Num 2 * Num pi / T);
                       adjustment = ((if upper option_type = ''CALL'' then moneyness else - moneyness)
                                       / volatility_estimate)
                                    + (r * np_sqrt T / volatility_estimate)
                   in py_max (volatility_estimate * (Num 1 + adjustment)) (Num 0))"

definition hybrid_black_scholes_price ::
  "pyfloat \<Rightarrow> pyfloat \<Rightarrow> pyfloat \<Rightarrow> pyfloat \<Rightarrow> pyfloat \<Rightarrow> string \<Rightarrow> pyfloat" where
  "hybrid_black_scholes_price S K T r sigma option_type =
     (if list_ex (\<lambda>param. param \<le> Num 0) [S, K, T, sigma] then NaN
      else let d1 = (np_log (S / K) + (r + Num 0.5 * sigma ^ 2) * T) / (sigma * np_sqrt T);
               d2 = d1 - sigma * np_sqrt T
           in if upper option_type = ''CALL''
              then S * norm_cdf d1 - K * np_exp (- r * T) * norm_cdf d2
              else if upper option_type = ''PUT''
              then K * np_exp (- r * T) * norm_cdf (- d2) - S * norm_cdf (- d1)
              else NaN)"

text \<open>
  \<open>refine_iv\<close>: Brent's method between bounds around the estimate; whatever the solver
  raises, the unrefined estimate is returned.
\<close>

definition refine_iv ::
  "brentq_fn \<Rightarrow> pyfloat \<Rightarrow> pyfloat \<Rightarrow> pyfloat \<Rightarrow> pyfloat \<Rightarrow> string \<Rightarrow> pyfloat \<Rightarrow> pyfloat \<Rightarrow> pyfloat" where
  "refine_iv brentq S K T r option_type observed_price initial_iv =
     (let objective = (\<lambda>sigma. Inr (hybrid_black_scholes_price S K T r sigma option_type - observed_price));
          lower_bound = py_max (Num (1 / 10 ^ 6)) (initial_iv * Num 0.5);
          upper_bound = py_min (Num 5) (py_max (Num 1) (initial_iv * Num 1.5))
      in case brentq objective lower_bound upper_bound (Num (1 / 10 ^ 8)) of
           Inr refined_iv \<Rightarrow> refined_iv
         | Inl e \<Rightarrow> initial_iv)"

definition hybrid_calculate_greeks ::
  "pyfloat \<Rightarrow> pyfloat \<Rightarrow> pyfloat \<Rightarrow> pyfloat \<Rightarrow> pyfloat \<Rightarrow> string \<Rightarrow> (string \<Rightarrow> pyfloat option) option" where
  "hybrid_calculate_greeks S K T r sigma option_type =
     (if list_ex (\<lambda>param. param \<le> Num 0) [S, K, T, sigma] then None
      else let d1 = (np_log (S / K) + (r + Num 0.5 * sigma ^ 2) * T) / (sigma * np_sqrt T);
               d2 = d1 - sigma * np_sqrt T;
               delta = (if upper option_type = ''CALL'' then norm_cdf d1 else norm_cdf d1 - Num 1);
               gamma = norm_pdf d1 / (S * sigma * np_sqrt T);
               vega = S * norm_pdf d1 * np_sqrt T;
               theta_call = (- S * norm_pdf d1 * sigma) / (Num 2 * np_sqrt T)
                            - r * K * np_exp (- r * T) * norm_cdf d2;
               theta_put = (- S * norm_pdf d1 * sigma) / (Num 2 * np_sqrt T)
                           + r * K * np_exp (- r * T) * norm_cdf (- d2);
               theta = (if upper option_type = ''CALL'' then theta_call else theta_put);
               rho_call = K * T * np_exp (- r * T) * norm_cdf d2;
               rho_put = - K * T * np_exp (- r * T) * norm_cdf (- d2);
               rho = (if upper option_type = ''CALL'' then rho_call else rho_put);
               vanna = d1 * gamma;
               charm = - norm_pdf d1 * ((Num 2 * r * T - d2 * sigma * np_sqrt T) / (Num 2 * T))
           in Some (map_of [(''delta'', delta), (''gamma'', gamma), (''vega'', vega),
                            (''theta'', theta), (''rho'', rho), (''vanna'', vanna),
                            (''charm'', charm)]))"

definition hybrid_market_price :: "row \<Rightarrow> cell" where
  "hybrid_market_price row = py_or (py_or (row_get row ''mid'') (row_get row ''mark'')) (row_get row ''last'')"

text \<open>
  \<open>process_row\<close> of hybrid_one.py, with the same reading of the expiration date and of
  the option type as for grok.py.
\<close>

definition hybrid_process_row :: "brentq_fn \<Rightarrow> row \<Rightarrow> row option" where
  "hybrid_process_row brentq row =
     (if row ''expirationDate'' = None then None
      else let S = row_get row ''spotPrice'';
               K = row_get row ''strikePrice'';
               T = row_get row ''T'';
               r = row_get row ''SOFR'';
               option_type = row_get row ''putCall'';
               market_price = hybrid_market_price row
           in if list_ex param_rejected [S, K, T, r, market_price] \<or> \<not> truthy option_type then None
              else (case (S, K, T, r, market_price, option_type) of
                      (Flt S', Flt K', Flt T', Flt r', Flt price, Str ot) \<Rightarrow>
                        (let initial_iv = closed_form_iv S' K' T' r' ot price;
                             refined_iv = refine_iv brentq S' K' T' r' ot price initial_iv
                         in case hybrid_calculate_greeks S' K' T' r' refined_iv ot of
                              None \<Rightarrow> None
                            | Some greeks \<Rightarrow>
                                Some (row ++ [''impliedVolatility'' \<mapsto> Flt refined_iv]
                                          ++ (map_option Flt \<circ> greeks)))
                    | _ \<Rightarrow> None))"

section \<open>Bracketing solver (brent_bs.py)\<close>

text \<open>
  \<open>calculate_greeks\<close> of brent_bs.py returns a dictionary whose seven entries are all
  \<open>None\<close> when \<open>T <= 0\<close> or \<open>sigma <= 0\<close>. The option type is the cell of the row,
  compared with the string \<open>"CALL"\<close> as it is.
\<close>

definition brent_calculate_greeks ::
  "pyfloat \<Rightarrow> pyfloat \<Rightarrow> pyfloat \<Rightarrow> pyfloat \<Rightarrow> pyfloat \<Rightarrow> cell \<Rightarrow> row" where
  "brent_calculate_greeks S K T r sigma option_type =
     (if T \<le> Num 0 \<or> sigma \<le> Num 0
      then map_of [(''delta'', PyNone), (''gamma'', PyNone), (''vega'', PyNone), (''theta'', PyNone),
                   (''rho'', PyNone), (''vanna'', PyNone), (''charm'', PyNone)]
      else let d1 = (np_log (S / K) + (r + Num 0.5 * sigma ^ 2) * T) / (sigma * np_sqrt T);
               d2 = d1 - sigma * np_sqrt T;
               gamma = (if T < Num (1 / 10 ^ 6) then Num (1 / 10 ^ 5)
                        else norm_pdf d1 / (S * sigma * np_sqrt T));
               delta = (if T < Num (1 / 10 ^ 6)
                        then (if S > K then Num 1
                              else if option_type = Str ''CALL'' then Num 0 else Num (- 1))
                        else (if option_type = Str ''CALL'' then norm_cdf d1
                              else norm_cdf d1 - Num 1));
               vega = S * norm_pdf d1 * np_sqrt T;
               theta_call = (- S * norm_pdf d1 * sigma) / (Num 2 * np_sqrt T)
                            - r * K * np_exp (- r * T) * norm_cdf d2;
               theta_put = (- S * norm_pdf d1 * sigma) / (Num 2 * np_sqrt T)
                           + r * K * np_exp (- r * T) * norm_cdf (- d2);
               theta = (if option_type = Str ''CALL'' then theta_call else theta_put);
               rho_call = K * T * np_exp (- r * T) * norm_cdf d2;
               rho_put = - K * T * np_exp (- r * T) * norm_cdf (- d2);
               rho = (if option_type = Str ''CALL'' then rho_call else rho_put);
               vanna = d2 * S * norm_pdf d1 / sigma;
               charm = - norm_pdf d1 * (Num 2 * r * T - d2 * sigma * np_sqrt T)
                       / (Num 2 * T * sigma * np_sqrt T)
           in map_of [(''delta'', Flt delta), (''gamma'', Flt gamma), (''vega'', Flt vega),
                      (''theta'', Flt theta), (''rho'', Flt rho), (''vanna'', Flt vanna),
                      (''charm'', Flt charm)])"

text \<open>
  \<open>calculate_implied_volatility\<close>: \<open>None\<close> when an input is not positive, else Brent's
  method on [1e-6, 10]; \<open>None\<close> again for whatever the solver raises. The inner price
  function returns \<open>None\<close> for an option type that is neither \<open>"CALL"\<close> nor \<open>"PUT"\<close>, and
  the subtraction of the market price then raises a TypeError.
\<close>

definition brent_black_scholes_price ::
  "pyfloat \<Rightarrow> pyfloat \<Rightarrow> pyfloat \<Rightarrow> pyfloat \<Rightarrow> cell \<Rightarrow> pyfloat \<Rightarrow> pyfloat option" where
  "brent_black_scholes_price S K T r option_type sigma =
     (let d1 = (np_log (S / K) + (r + Num 0.5 * sigma ^ 2) * T) / (sigma * np_sqrt T);
          d2 = d1 - sigma * np_sqrt T
      in if option_type = Str ''CALL''
         then Some (S * norm_cdf d1 - K * np_exp (- r * T) * norm_cdf d2)
         else if option_type = Str ''PUT''
         then Some (K * np_exp (- r * T) * norm_cdf (- d2) - S * norm_cdf (- d1))
         else None)"

definition calculate_implied_volatility ::
  "brentq_fn \<Rightarrow> pyfloat \<Rightarrow> pyfloat \<Rightarrow> pyfloat \<Rightarrow> pyfloat \<Rightarrow> pyfloat \<Rightarrow> cell \<Rightarrow> pyfloat option" where
  "calculate_implied_volatility brentq market_price S K T r option_type =
     (if S \<le> Num 0 \<or> K \<le> Num 0 \<or> T \<le> Num 0 \<or> market_price \<le> Num 0 then None
      else let lower_bound = Num (1 / 10 ^ 6);
               upper_bound = Num 10
           in case brentq (\<lambda>sigma. case brent_black_scholes_price S K T r option_type sigma of
                                      None \<Rightarrow> Inl TypeError
                                    | Some price \<Rightarrow> Inr (price - market_price))
                     lower_bound upper_bound (Num (1 / 10 ^ 5)) of
                Inr x \<Rightarrow> Some x
              | Inl e \<Rightarrow> None)"

definition brent_market_price :: "row \<Rightarrow> cell" where
  "brent_market_price row = row_get row ''last''"

text \<open>
  The body of the loop of \<open>brent_bs_adjusted_processing\<close> for one row: the row is skipped
  with a reason, or extended by the Greeks and the implied volatility. A missing column
  raises a KeyError; a cell that is \<open>None\<close> or NaN counts as missing input; a string among
  the numeric inputs makes the comparisons of \<open>calculate_implied_volatility\<close> raise, which
  it answers with \<open>None\<close>.
\<close>

datatype skip_reason = Missing_inputs | Failed_IV | Row_exception

definition is_null :: "cell \<Rightarrow> bool" where
  "is_null c = (c = PyNone \<or> c = Flt NaN)"

definition brent_process_row :: "brentq_fn \<Rightarrow> row \<Rightarrow> skip_reason + row" where
  "brent_process_row brentq row =
     (if list_ex (\<lambda>k. row k = None) [''spotPrice'', ''strikePrice'', ''T'', ''SOFR'', ''putCall'']
      then Inl Row_exception
      else let S = row_get row ''spotPrice'';
               K = row_get row ''strikePrice'';
               T = row_get row ''T'';
               r = row_get row ''SOFR'';
               option_type = row_get row ''putCall'';
               market_price = brent_market_price row
           in if list_ex is_null [S, K, T, r, market_price] then Inl Missing_inputs
              else (case (S, K, T, r, market_price) of
                      (Flt S', Flt K', Flt T', Flt r', Flt price) \<Rightarrow>
                        (case calculate_implied_volatility brentq price S' K' T' r' option_type of
                           None \<Rightarrow> Inl Failed_IV
                         | Some iv \<Rightarrow>
                             (if row ''expirationDate'' = None then Inl Row_exception
                              else Inr (row ++ brent_calculate_greeks S' K' T' r' iv option_type
                                            ++ [''impliedVolatility'' \<mapsto> Flt iv])))
                    | _ \<Rightarrow> Inl Failed_IV))"

section \<open>Exposures (abso_expo.py, calculate_exposures)\<close>

text \<open>
  The exposure formulas multiply by the open interest and by the square of the spot price,
  so what a product of doubles is decides their result: for them a float is NaN, one of the
  two infinities, or a finite number, and every arithmetic result is rounded to a double.
  The rounding is a parameter \<open>fl\<close>: it maps the exact result to the double the hardware
  returns, an infinity when the exact result is out of range. The sign of a zero is not
  modelled.
\<close>

datatype double = DNaN | DPosInf | DNegInf | DNum real

type_synonym rounding = "real \<Rightarrow> double"

definition isfinite :: "double \<Rightarrow> bool" where
  "isfinite a = (case a of DNum x \<Rightarrow> True | _ \<Rightarrow> False)"

definition sign_of :: "double \<Rightarrow> real" where
  "sign_of a = (case a of DNaN \<Rightarrow> 0 | DPosInf \<Rightarrow> 1 | DNegInf \<Rightarrow> - 1 | DNum x \<Rightarrow> sgn x)"

definition infinity_of :: "real \<Rightarrow> double" where
  "infinity_of s = (if s > 0 then DPosInf else DNegInf)"

text \<open>
  The product of two doubles: NaN when an operand is NaN or an infinity meets zero, an
  infinity with the sign of the product when an operand is infinite, and the rounded
  product otherwise.
\<close>

definition fmul :: "rounding \<Rightarrow> double \<Rightarrow> double \<Rightarrow> double" where
  "fmul fl a b =
     (case (a, b) of
        (DNum x, DNum y) \<Rightarrow> fl (x * y)
      | _ \<Rightarrow> (if a = DNaN \<or> b = DNaN \<or> sign_of a * sign_of b = 0 then DNaN
              else infinity_of (sign_of a * sign_of b)))"

text \<open>
  Division by a constant that is not zero (the source divides by \<open>1_000_000\<close> only).
\<close>

definition fdiv :: "rounding \<Rightarrow> double \<Rightarrow> real \<Rightarrow> double" where
  "fdiv fl a divisor =
     (case a of
        DNum x \<Rightarrow> fl (x / divisor)
      | DNaN \<Rightarrow> DNaN
      | DPosInf \<Rightarrow> infinity_of divisor
      | DNegInf \<Rightarrow> infinity_of (- divisor))"

text \<open>
  \<open>round(x, 3)\<close> on a float: NaN and the infinities round to themselves; a finite double
  becomes the double nearest to its exact value rounded to three decimals, a tie to the
  even digit.
\<close>

definition round3 :: "rounding \<Rightarrow> double \<Rightarrow> double" where
  "round3 fl a = (case a of DNum x \<Rightarrow> fl (of_int (py_round (x * 1000)) / 1000) | _ \<Rightarrow> a)"

text \<open>
  One row of the data frame \<open>calculate_exposures\<close> reads: the columns it requires. The
  option type is the text of the \<open>putCall\<close> column.
\<close>

record contract =
  delta :: double
  gamma :: double
  vanna :: double
  charm :: double
  spotPrice :: double
  openInterest :: double
  putCall :: string
  impliedVolatility :: double

record exposures =
  DEX :: double
  GEX :: double
  VEX :: double
  CEX :: double

text \<open>
  The four columns the function adds to a row, products taken from left to right as
  Python does: each product is divided by one million and rounded to three decimals, and
  the GEX of a put is multiplied by -1 afterwards. \<open>spotPrice ** 2\<close> is the rounded product
  of the spot price with itself.
\<close>

definition row_exposures :: "rounding \<Rightarrow> contract \<Rightarrow> exposures" where
  "row_exposures fl c =
     \<lparr>DEX = round3 fl (fdiv fl (fmul fl (fmul fl (delta c) (openInterest c)) (spotPrice c)) 1000000),
      GEX = (let g = round3 fl
                       (fdiv fl
                          (fmul fl
                             (fmul fl (fmul fl (gamma c) (openInterest c))
                                      (fmul fl (spotPrice c) (spotPrice c)))
                             (DNum 100))
                          1000000)
             in if upper (putCall c) = ''PUT'' then fmul fl g (DNum (- 1)) else g),
      VEX = round3 fl
              (fdiv fl
                 (fmul fl (fmul fl (fmul fl (vanna c) (openInterest c)) (spotPrice c))
                          (impliedVolatility c))
                 1000000),
      CEX = round3 fl
              (fdiv fl
                 (fmul fl (fmul fl (fmul fl (charm c) (openInterest c)) (spotPrice c)) (DNum 365))
                 1000000)\<rparr>"

text \<open>
  \<open>calculate_exposures\<close>: \<open>None\<close> when the frame lacks a required column, else every row
  with its exposures. The second argument lists the columns of the frame.
\<close>

definition required_columns :: "string list" where
  "required_columns = [''delta'', ''gamma'', ''vanna'', ''charm'', ''spotPrice'', ''openInterest'',
                       ''putCall'', ''impliedVolatility'']"

definition calculate_exposures ::
  "rounding \<Rightarrow> string list \<Rightarrow> contract list \<Rightarrow> (contract \<times> exposures) list option" where
  "calculate_exposures fl columns df =
     (let missing_columns = filter (\<lambda>col. col \<notin> set columns) required_columns
      in if missing_columns \<noteq> [] then None
         else Some (map (\<lambda>c. (c, row_exposures fl c)) df))"

section \<open>Ranking (ranking.py)\<close>

text \<open>\<open>str\<close> of a natural number, for the rank labels.\<close>

definition digit_char :: "nat \<Rightarrow> char" where
  "digit_char d = ''0123456789'' ! d"

function str_nat :: "nat \<Rightarrow> string" where
  "str_nat n = (if n < 10 then [digit_char n] else str_nat (n div 10) @ [digit_char (n mod 10)])"
  by pat_completeness auto
termination
  by (relation "measure id") auto

declare str_nat.simps [simp del]

text \<open>
  \<open>calculate_theo_es\<close>: the strike moved by the multiplier, rounded to the nearest
  quarter. The multiplier is read from a spreadsheet by \<open>extract_es_multiplier\<close>, which
  aborts the script when it cannot; it is a parameter here.
\<close>

definition calculate_theo_es :: "real \<Rightarrow> real \<Rightarrow> real" where
  "calculate_theo_es strike_price multiplier =
     (let theo_price = strike_price + (strike_price * multiplier)
      in of_int (py_round (theo_price * 4)) / 4)"

record ranked_level =
  strikePrice :: real
  exposure :: real
  Theo_ES :: real
  Rank :: string
  Greek :: string
  Value :: real

text \<open>
  \<open>aggregated\<close>: the exposure column summed per strike and sorted by value, largest
  first. pandas does not fix the order of equal values; the model keeps them in the order
  of their strikes.
\<close>

definition aggregated :: "(pyfloat \<times> pyfloat) list \<Rightarrow> (real \<times> real) list" where
  "aggregated df = sort_key (\<lambda>(strike, v). - v) (groupby_sum df)"

definition level :: "real \<Rightarrow> string \<Rightarrow> string \<Rightarrow> real \<times> real \<Rightarrow> ranked_level" where
  "level es_multiplier exposure_column label sv =
     \<lparr>strikePrice = fst sv, exposure = snd sv,
      Theo_ES = calculate_theo_es (fst sv) es_multiplier,
      Rank = label, Greek = exposure_column, Value = snd sv\<rparr>"

text \<open>
  \<open>top_levels\<close> is \<open>aggregated.head(top_n)\<close> with the labels \<open>Call G 1\<close>, \<open>Call G 2\<close>, ...;
  \<open>bottom_levels\<close> is \<open>aggregated.tail(top_n)\<close> with the labels \<open>Put G top_n\<close>,
  \<open>Put G (top_n - 1)\<close>, ... . \<open>top_n\<close> is a natural number.
\<close>

definition top_levels :: "real \<Rightarrow> (pyfloat \<times> pyfloat) list \<Rightarrow> string \<Rightarrow> nat \<Rightarrow> ranked_level list" where
  "top_levels es_multiplier df exposure_column top_n =
     (let rows = take top_n (aggregated df)
      in map (\<lambda>i. level es_multiplier exposure_column
                     (''Call '' @ exposure_column @ '' '' @ str_nat (i + 1)) (rows ! i))
             [0 ..< length rows])"

definition bottom_levels :: "real \<Rightarrow> (pyfloat \<times> pyfloat) list \<Rightarrow> string \<Rightarrow> nat \<Rightarrow> ranked_level list" where
  "bottom_levels es_multiplier df exposure_column top_n =
     (let rows = drop (length (aggregated df) - top_n) (aggregated df)
      in map (\<lambda>i. level es_multiplier exposure_column
                     (''Put '' @ exposure_column @ '' '' @ str_nat (top_n - i)) (rows ! i))
             [0 ..< length rows])"

definition rank_exposures :: "real \<Rightarrow> (pyfloat \<times> pyfloat) list \<Rightarrow> string \<Rightarrow> nat \<Rightarrow> ranked_level list" where
  "rank_exposures es_multiplier df exposure_column top_n =
     top_levels es_multiplier df exposure_column top_n
     @ bottom_levels es_multiplier df exposure_column top_n"

section \<open>Properties of the gamma flip\<close>

lemma length_cumsum_from: "length (cumsum_from a xs) = length xs"
  by (induction xs arbitrary: a) auto

lemma length_cumsum: "length (cumsum xs) = length xs"
  by (simp add: cumsum_def length_cumsum_from)

lemma np_sign_add:
  "np_sign x = s \<Longrightarrow> np_sign a = s \<or> a = 0 \<Longrightarrow> np_sign (a + x) = s"
  by (auto simp: np_sign_def split: if_splits)

lemma np_sign_cumsum_from:
  "\<forall>x\<in>set xs. np_sign x = s \<Longrightarrow> np_sign a = s \<or> a = 0 \<Longrightarrow>
   \<forall>c\<in>set (cumsum_from a xs). np_sign c = s"
proof (induction xs arbitrary: a)
  case Nil
  then show ?case by simp
next
  case (Cons x xs)
  have step: "np_sign (a + x) = s"
    using Cons.prems by (intro np_sign_add) auto
  with Cons show ?case by auto
qed

lemma np_sign_cumsum:
  "\<forall>x\<in>set xs. np_sign x = s \<Longrightarrow> \<forall>c\<in>set (cumsum xs). np_sign c = s"
  unfolding cumsum_def by (rule np_sign_cumsum_from) auto

lemma cum_scan_same_sign:
  "\<forall>z\<in>set zs. np_sign (snd z) = s \<Longrightarrow>
   (case prev of None \<Rightarrow> True | Some p \<Rightarrow> np_sign (snd p) = s) \<Longrightarrow>
   cum_scan prev zs = None"
proof (induction prev zs rule: cum_scan.induct)
  case (1 prev)
  then show ?case by simp
next
  case (2 strike cum_value rest)
  then show ?case by simp
next
  case (3 prev_strike prev_cum_gex strike cum_value rest)
  from "3.prems" have "np_sign prev_cum_gex = np_sign cum_value" by simp
  then have no: "\<not> (prev_cum_gex > 0 \<and> cum_value < 0)"
    by (auto simp: np_sign_def split: if_splits)
  with 3 show ?case by simp
qed

lemma length_np_diff: "length (np_diff xs) = length xs - 1"
  by (induction xs rule: np_diff.induct) auto

lemma nth_np_diff: "i + 1 < length xs \<Longrightarrow> np_diff xs ! i = xs ! (i + 1) - xs ! i"
proof (induction xs arbitrary: i rule: np_diff.induct)
  case (1 x y xs)
  then show ?case by (cases i) auto
qed auto

lemma np_where_Nil: "\<forall>d\<in>set ds. d = 0 \<Longrightarrow> np_where ds = []"
  by (auto simp: np_where_def filter_empty_conv)

lemma np_where_first:
  assumes "n < length ds" "\<forall>i<n. ds ! i = 0" "ds ! n \<noteq> 0"
  shows "\<exists>rest. np_where ds = n # rest"
proof -
  have split: "[0 ..< length ds] = [0 ..< n] @ n # [Suc n ..< length ds]"
    using assms(1) by (metis less_imp_le_nat upt_add_eq_append upt_conv_Cons le_add_diff_inverse zero_le add_0)
  have "filter (\<lambda>i. ds ! i \<noteq> 0) [0 ..< n] = []"
    using assms(2) by (auto simp: filter_empty_conv)
  then show ?thesis
    unfolding np_where_def split using assms(3) by simp
qed

lemma cum_scan_first_cross:
  "n + 1 < length zs \<Longrightarrow> \<forall>i\<le>n. snd (zs ! i) > 0 \<Longrightarrow> snd (zs ! (n + 1)) < 0 \<Longrightarrow>
   cum_scan prev zs =
     Some (interpolate (fst (zs ! n)) (snd (zs ! n)) (fst (zs ! (n + 1))) (snd (zs ! (n + 1))))"
proof (induction n arbitrary: zs prev)
  case 0
  then obtain z0 z1 rest where zs: "zs = z0 # z1 # rest"
    by (cases zs; cases "tl zs") auto
  obtain k0 c0 where z0: "z0 = (k0, c0)" by (cases z0)
  obtain k1 c1 where z1: "z1 = (k1, c1)" by (cases z1)
  from 0 zs z0 z1 have pos: "c0 > 0" and neg: "c1 < 0" by auto
  show ?case
    using pos neg unfolding zs z0 z1 by (cases prev) auto
next
  case (Suc n)
  then obtain z0 zs' where zs: "zs = z0 # zs'" by (cases zs) auto
  obtain k0 c0 where z0: "z0 = (k0, c0)" by (cases z0)
  from Suc.prems zs z0 have pos: "c0 > 0" by auto
  have len: "n + 1 < length zs'" using Suc.prems zs by simp
  have allpos: "\<forall>i\<le>n. snd (zs' ! i) > 0"
  proof (intro allI impI)
    fix i assume "i \<le> n"
    then have "snd (zs ! Suc i) > 0" using Suc.prems(2) by auto
    then show "snd (zs' ! i) > 0" by (simp add: zs)
  qed
  have neg: "snd (zs' ! (n + 1)) < 0" using Suc.prems(3) by (simp add: zs)
  have "cum_scan prev zs = cum_scan (Some (k0, c0)) zs'"
    using pos unfolding zs z0 by (cases prev) auto
  also have "\<dots> = Some (interpolate (fst (zs' ! n)) (snd (zs' ! n)) (fst (zs' ! (n + 1))) (snd (zs' ! (n + 1))))"
    by (rule Suc.IH[OF len allpos neg])
  finally show ?case by (simp add: zs)
qed

lemma np_diff_const: "\<forall>x\<in>set xs. x = s \<Longrightarrow> \<forall>d\<in>set (np_diff xs). d = 0"
  by (induction xs rule: np_diff.induct) auto

lemma cum_gam_same_sign:
  assumes "\<forall>z\<in>set g. np_sign (snd z) = s"
  shows "cum_gam g = None"
proof -
  have "\<forall>c\<in>set (cumsum (map snd g)). np_sign c = s"
    using assms by (intro np_sign_cumsum) auto
  then have "\<forall>z\<in>set (cumulative_gex g). np_sign (snd z) = s"
    unfolding cumulative_gex_def by (auto dest: set_zip_rightD)
  then show ?thesis
    unfolding cum_gam_def by (rule cum_scan_same_sign) simp
qed

lemma vec_gam_same_sign:
  assumes "\<forall>z\<in>set g. np_sign (snd z) = s"
  shows "vec_gam g = None"
proof -
  have "\<forall>c\<in>set (cumsum (map snd g)). np_sign c = s"
    using assms by (intro np_sign_cumsum) auto
  then have "\<forall>x\<in>set (map np_sign (cumsum (map snd g))). x = s" by auto
  then have "np_where (np_diff (map np_sign (cumsum (map snd g)))) = []"
    by (intro np_where_Nil np_diff_const)
  then show ?thesis by (simp add: vec_gam_def)
qed

text \<open>
  Claim C6. When all per-strike aggregated GEX values share one sign (all positive, all
  negative, or all zero, as \<open>np.sign\<close> reports it), the running sums share it too, and both
  gamma-flip methods return null: no strike and no zero.
\<close>

theorem same_sign_no_flip:
  assumes "\<forall>z\<in>set (gex_by_strike rows). np_sign (snd z) = s"
  shows "gamma_flips rows = (None, None)"
  using cum_gam_same_sign[OF assms] vec_gam_same_sign[OF assms]
  by (simp add: gamma_flips_def)

lemma np_sign_pos: "x > 0 \<Longrightarrow> np_sign x = 1"
  by (simp add: np_sign_def)

lemma np_sign_neg: "x < 0 \<Longrightarrow> np_sign x = - 1"
  by (simp add: np_sign_def)

lemma first_cross_agree:
  assumes len: "n + 1 < length g"
    and pos: "\<forall>i\<le>n. cumsum (map snd g) ! i > 0"
    and neg: "cumsum (map snd g) ! (n + 1) < 0"
  shows "cum_gam g = Some (interpolate (fst (g ! n)) (cumsum (map snd g) ! n)
                              (fst (g ! (n + 1))) (cumsum (map snd g) ! (n + 1)))"
    and "vec_gam g = Some (interpolate (fst (g ! n)) (cumsum (map snd g) ! n)
                              (fst (g ! (n + 1))) (cumsum (map snd g) ! (n + 1)))"
proof -
  let ?cs = "cumsum (map snd g)"
  let ?zs = "cumulative_gex g"
  have lcs: "length ?cs = length g" by (simp add: length_cumsum)
  have lzs: "length ?zs = length g" by (simp add: cumulative_gex_def lcs)
  have nth_zs: "\<And>i. i < length g \<Longrightarrow> ?zs ! i = (fst (g ! i), ?cs ! i)"
    by (simp add: cumulative_gex_def lcs)
  have "cum_scan None ?zs =
     Some (interpolate (fst (?zs ! n)) (snd (?zs ! n)) (fst (?zs ! (n + 1))) (snd (?zs ! (n + 1))))"
  proof (rule cum_scan_first_cross)
    show "n + 1 < length ?zs" using len lzs by simp
    show "\<forall>i\<le>n. snd (?zs ! i) > 0" using pos len by (simp add: nth_zs)
    show "snd (?zs ! (n + 1)) < 0" using neg len by (simp add: nth_zs)
  qed
  then show "cum_gam g = Some (interpolate (fst (g ! n)) (?cs ! n) (fst (g ! (n + 1))) (?cs ! (n + 1)))"
    using len by (simp add: cum_gam_def nth_zs)
  let ?ds = "np_diff (map np_sign ?cs)"
  have lds: "length ?ds = length g - 1" by (simp add: length_np_diff lcs)
  have nth_ds: "\<And>i. i + 1 < length g \<Longrightarrow> ?ds ! i = np_sign (?cs ! (i + 1)) - np_sign (?cs ! i)"
    by (simp add: nth_np_diff lcs)
  have zero: "\<forall>i<n. ?ds ! i = 0"
  proof (intro allI impI)
    fix i assume i: "i < n"
    then have "?cs ! i > 0" "?cs ! (i + 1) > 0" using pos by auto
    then show "?ds ! i = 0" using i len by (simp add: nth_ds np_sign_pos)
  qed
  have "?cs ! n > 0" using pos by auto
  then have nz: "?ds ! n \<noteq> 0" using neg len by (simp add: nth_ds np_sign_pos np_sign_neg)
  have "n < length ?ds" using len lds by simp
  from np_where_first[OF this zero nz] obtain rest where "np_where ?ds = n # rest" by blast
  then show "vec_gam g = Some (interpolate (fst (g ! n)) (?cs ! n) (fst (g ! (n + 1))) (?cs ! (n + 1)))"
    using len by (simp add: vec_gam_def Let_def)
qed

lemma first_negative_index:
  fixes cs :: "real list"
  assumes "cs \<noteq> []" "hd cs > 0" "0 \<notin> set cs" "\<exists>c\<in>set cs. c < 0"
  shows "\<exists>n. n + 1 < length cs \<and> (\<forall>i\<le>n. cs ! i > 0) \<and> cs ! (n + 1) < 0"
proof -
  let ?P = "\<lambda>c::real. c > 0"
  let ?m = "length (takeWhile ?P cs)"
  have m_pos: "?m > 0" using assms(1,2) by (cases cs) auto
  have m_lt: "?m < length cs"
  proof (rule ccontr)
    assume "\<not> ?m < length cs"
    then have "?m = length cs" using length_takeWhile_le[of ?P cs] by simp
    then have "takeWhile ?P cs = cs" by (metis takeWhile_eq_take take_all order_refl)
    then have "\<forall>c\<in>set cs. c > 0" by (metis set_takeWhileD)
    with assms(4) show False by force
  qed
  have "\<not> ?P (cs ! ?m)" using m_lt by (rule nth_length_takeWhile)
  moreover have "cs ! ?m \<noteq> 0" using assms(3) m_lt by (metis nth_mem)
  ultimately have neg: "cs ! ?m < 0" by simp
  have pos: "\<forall>i<?m. cs ! i > 0"
  proof (intro allI impI)
    fix i assume i: "i < ?m"
    then have "takeWhile ?P cs ! i = cs ! i" by (rule takeWhile_nth)
    moreover have "takeWhile ?P cs ! i \<in> set (takeWhile ?P cs)" using i by simp
    ultimately show "cs ! i > 0" by (metis set_takeWhileD)
  qed
  show ?thesis
  proof (intro exI[of _ "?m - 1"] conjI)
    show "?m - 1 + 1 < length cs" using m_pos m_lt by simp
    show "\<forall>i\<le>?m - 1. cs ! i > 0"
    proof (intro allI impI)
      fix i assume "i \<le> ?m - 1"
      then have "i < ?m" using m_pos by linarith
      then show "cs ! i > 0" using pos by blast
    qed
    show "cs ! (?m - 1 + 1) < 0" using neg m_pos by simp
  qed
qed

text \<open>
  Claim C4, as amended. When the running sum of the per-strike GEX series (strikes high to
  low) starts positive, is never exactly zero and is negative at some strike, so that
  its first sign change is a crossing from positive to negative, the iterative and the
  vectorized method return the same flip strike, and it is not null. This covers every
  decreasing series that crosses zero once without touching it.
\<close>

theorem flip_methods_agree:
  assumes "cumsum (map snd (gex_by_strike rows)) \<noteq> []"
    and "hd (cumsum (map snd (gex_by_strike rows))) > 0"
    and "0 \<notin> set (cumsum (map snd (gex_by_strike rows)))"
    and "\<exists>c\<in>set (cumsum (map snd (gex_by_strike rows))). c < 0"
  shows "fst (gamma_flips rows) = snd (gamma_flips rows) \<and> fst (gamma_flips rows) \<noteq> None"
proof -
  let ?g = "gex_by_strike rows"
  from first_negative_index[OF assms] obtain n where
    n: "n + 1 < length (cumsum (map snd ?g))" "\<forall>i\<le>n. cumsum (map snd ?g) ! i > 0"
       "cumsum (map snd ?g) ! (n + 1) < 0" by blast
  have len: "n + 1 < length ?g" using n(1) by (simp add: length_cumsum)
  show ?thesis
    using first_cross_agree[OF len n(2) n(3)] by (simp add: gamma_flips_def Let_def)
qed

lemmas gamma_flip_eval =
  gamma_flips_def gex_by_strike_def groupby_sum_def group_keys_def group_sum_def cum_gam_def
  vec_gam_def cumulative_gex_def cumsum_def np_where_def np_sign_def interpolate_def upt_conv_Cons

lemma length_cumulative_gex: "length (cumulative_gex g) = length g"
  by (simp add: cumulative_gex_def length_cumsum)

lemma nth_cumulative_gex:
  "i < length g \<Longrightarrow> cumulative_gex g ! i = (fst (g ! i), cumsum (map snd g) ! i)"
  by (simp add: cumulative_gex_def length_cumsum)

text \<open>
  The per-strike input of claim C1: its running sums are 50, 70, 60, 20, which never
  change sign, and both methods return null.
\<close>

theorem gamma_flip_example_per_strike:
  "cumulative_gex (gex_by_strike [(Num 105, Num 50), (Num 104, Num 20), (Num 103, Num (- 10)), (Num 102, Num (- 40))])
     = [(105, 50), (104, 70), (103, 60), (102, 20)]
   \<and> gamma_flips [(Num 105, Num 50), (Num 104, Num 20), (Num 103, Num (- 10)), (Num 102, Num (- 40))]
     = (None, None)"
  by (simp add: gamma_flip_eval)

text \<open>
  Claim C1, as amended. When the cumulative GEX series is +50, +20, -10, -40 at the strikes
  105, 104, 103, 102 (descending), both the iterative and the vectorized method return the
  interpolated strike 104 - (20 / (20 - (-10))) * (104 - 103), about 103.33.
\<close>

theorem gamma_flip_example_cumulative:
  assumes "cumulative_gex (gex_by_strike rows) = [(105, 50), (104, 20), (103, - 10), (102, - 40)]"
  shows "gamma_flips rows =
           (Some (104 - (20 / (20 - (- 10))) * (104 - 103)),
            Some (104 - (20 / (20 - (- 10))) * (104 - 103)))"
proof -
  let ?g = "gex_by_strike rows"
  let ?cs = "cumsum (map snd ?g)"
  have len: "length ?g = 4"
    using length_cumulative_gex[of ?g] assms by simp
  have nth: "\<And>i. i < 4 \<Longrightarrow> (fst (?g ! i), ?cs ! i) = [(105, 50), (104, 20), (103, - 10), (102, - 40)] ! i"
    using nth_cumulative_gex[of _ ?g] len assms by simp
  have n0: "?cs ! 0 = 50" using nth[of 0] by simp
  have n1: "fst (?g ! 1) = 104" "?cs ! 1 = 20" using nth[of 1] by simp_all
  have n2: "fst (?g ! 2) = 103" "?cs ! 2 = - 10" using nth[of 2] by simp_all
  have l: "1 + 1 < length ?g" using len by simp
  have pos: "\<forall>i\<le>1. ?cs ! i > 0"
  proof (intro allI impI)
    fix i :: nat assume "i \<le> 1"
    then have "i = 0 \<or> i = 1" by auto
    then show "?cs ! i > 0" using n0 n1 by auto
  qed
  have two: "(1::nat) + 1 = 2" by simp
  have "?cs ! 2 < 0" by (simp add: n2)
  then have neg: "?cs ! (1 + 1) < 0" by (simp only: two)
  note fc = first_cross_agree[OF l pos neg, unfolded two]
  have c: "cum_gam ?g = Some (interpolate 104 20 103 (- 10))"
    using fc(1) by (simp only: n1 n2)
  have v: "vec_gam ?g = Some (interpolate 104 20 103 (- 10))"
    using fc(2) by (simp only: n1 n2)
  show ?thesis
    by (simp add: gamma_flips_def Let_def c v interpolate_def)
qed

theorem gamma_flip_example_cumulative_witness:
  "cumulative_gex (gex_by_strike [(Num 105, Num 50), (Num 104, Num (- 30)), (Num 103, Num (- 30)), (Num 102, Num (- 30))])
     = [(105, 50), (104, 20), (103, - 10), (102, - 40)]
   \<and> gamma_flips [(Num 105, Num 50), (Num 104, Num (- 30)), (Num 103, Num (- 30)), (Num 102, Num (- 30))]
     = (Some (310 / 3), Some (310 / 3))"
proof -
  have h: "cumulative_gex (gex_by_strike [(Num 105, Num 50), (Num 104, Num (- 30)), (Num 103, Num (- 30)), (Num 102, Num (- 30))])
     = [(105, 50), (104, 20), (103, - 10), (102, - 40)]"
    by (simp add: gamma_flip_eval)
  show ?thesis
    using h gamma_flip_example_cumulative[OF h] by simp
qed

text \<open>
  An increasing running sum with a single sign change, from negative to positive: the
  iterative method, which looks for a crossing from positive to negative only, returns
  null, and the vectorized method returns a strike.
\<close>

theorem flip_methods_disagree_increasing:
  "cumsum (map snd (gex_by_strike [(Num 105, Num (- 10)), (Num 104, Num 30)])) = [- 10, 20]
   \<and> gamma_flips [(Num 105, Num (- 10)), (Num 104, Num 30)] = (None, Some (314 / 3))"
  by (simp add: gamma_flip_eval)

theorem flip_methods_agree_witness:
  "cumsum (map snd (gex_by_strike [(Num 105, Num 50), (Num 104, Num (- 30)), (Num 103, Num (- 30))])) = [50, 20, - 10]
   \<and> fst (gamma_flips [(Num 105, Num 50), (Num 104, Num (- 30)), (Num 103, Num (- 30))])
     = snd (gamma_flips [(Num 105, Num 50), (Num 104, Num (- 30)), (Num 103, Num (- 30))])
   \<and> fst (gamma_flips [(Num 105, Num 50), (Num 104, Num (- 30)), (Num 103, Num (- 30))]) = Some (310 / 3)"
proof -
  let ?rows = "[(Num 105, Num 50), (Num 104, Num (- 30)), (Num 103, Num (- 30))]"
  have cs: "cumsum (map snd (gex_by_strike ?rows)) = [50, 20, - 10]"
    by (simp add: gamma_flip_eval)
  have "fst (gamma_flips ?rows) = snd (gamma_flips ?rows) \<and> fst (gamma_flips ?rows) \<noteq> None"
    by (rule flip_methods_agree) (simp_all add: cs)
  moreover have "fst (gamma_flips ?rows) = Some (310 / 3)"
    by (simp add: gamma_flip_eval)
  ultimately show ?thesis using cs by simp
qed

theorem same_sign_no_flip_witness:
  "gex_by_strike [(Num 105, Num 5), (Num 104, Num 7), (Num 105, Num 1)] = [(105, 6), (104, 7)]
   \<and> gamma_flips [(Num 105, Num 5), (Num 104, Num 7), (Num 105, Num 1)] = (None, None)"
proof -
  let ?rows = "[(Num 105, Num 5), (Num 104, Num 7), (Num 105, Num 1)]"
  have g: "gex_by_strike ?rows = [(105, 6), (104, 7)]"
    by (simp add: gamma_flip_eval)
  have "gamma_flips ?rows = (None, None)"
    by (rule same_sign_no_flip[of _ 1]) (simp add: g np_sign_def)
  with g show ?thesis by simp
qed

section \<open>Properties of the implied-volatility solvers and the Greeks\<close>

subsection \<open>Evaluating the arithmetic\<close>

lemma Num_plus [simp]: "Num x + Num y = Num (x + y)"
  by (simp add: plus_pyfloat_def)

lemma Num_minus [simp]: "Num x - Num y = Num (x - y)"
  by (simp add: minus_pyfloat_def)

lemma Num_uminus [simp]: "- Num x = Num (- x)"
  by (simp add: uminus_pyfloat_def)

lemma Num_times [simp]: "Num x * Num y = Num (x * y)"
  by (simp add: times_pyfloat_def)

lemma Num_divide [simp]: "Num x / Num y = (if y = 0 then NaN else Num (x / y))"
  by (simp add: divide_pyfloat_def)

lemma Num_le [simp]: "Num x \<le> Num y \<longleftrightarrow> x \<le> y"
  by (simp add: less_eq_pyfloat_def)

lemma Num_less [simp]: "Num x < Num y \<longleftrightarrow> x < y"
  by (simp add: less_pyfloat_def)

lemma NaN_le [simp]: "\<not> NaN \<le> a" "\<not> a \<le> NaN"
  by (simp_all add: less_eq_pyfloat_def split: pyfloat.splits)

lemma NaN_less [simp]: "\<not> NaN < a" "\<not> a < NaN"
  by (simp_all add: less_pyfloat_def split: pyfloat.splits)

lemma Num_power [simp]: "Num x ^ n = Num (x ^ n)"
  by (induction n) (simp_all add: one_pyfloat_def)

lemma upper_CALL: "upper ''CALL'' = ''CALL''"
  by (simp add: upper_def char_upper_def)

lemma upper_PUT: "upper ''PUT'' = ''PUT''"
  by (simp add: upper_def char_upper_def)

subsection \<open>Greeks near expiry (brent_bs.py)\<close>

text \<open>
  What \<open>calculate_greeks\<close> of brent_bs.py returns for \<open>0 < T < 1e-6\<close> and
  \<open>sigma > 0\<close>: gamma is the constant 1e-5, and delta is 1 whenever \<open>S > K\<close>, for a
  call and for a put alike; otherwise it is 0 for a call and -1 for any other option type.
\<close>

lemma brent_near_expiry:
  assumes "0 < T" "T < 1 / 10 ^ 6" "0 < sigma"
  shows "brent_calculate_greeks S K (Num T) r (Num sigma) option_type ''gamma'' = Some (Flt (Num (1 / 10 ^ 5)))"
    and "brent_calculate_greeks S K (Num T) r (Num sigma) option_type ''delta'' =
           Some (Flt (if S > K then Num 1 else if option_type = Str ''CALL'' then Num 0 else Num (- 1)))"
  using assms by (simp_all add: brent_calculate_greeks_def Let_def)

text \<open>
  Claim C5. Near expiry (\<open>0 < T < 1e-6\<close>, \<open>sigma > 0\<close>) gamma is the clamp constant, and
  delta is to be the moneyness indicator: 1 or 0 for a call, 0 or -1 for a put. The code
  computes \<open>1.0 if S > K else 0.0 if option_type == "CALL" else -1.0\<close>, which Python reads
  as \<open>1.0 if S > K else (0.0 if ... else -1.0)\<close>: a put with \<open>S > K\<close> gets the delta 1,
  not 0. The theorem evaluates the code on such a put (S = 110, K = 100, T = 5e-7).
\<close>

theorem near_expiry_put_delta_is_one:
  "brent_calculate_greeks (Num 110) (Num 100) (Num (5 / 10 ^ 7)) (Num 0.05) (Num 0.2) (Str ''PUT'') ''gamma''
     = Some (Flt (Num (1 / 10 ^ 5)))
   \<and> brent_calculate_greeks (Num 110) (Num 100) (Num (5 / 10 ^ 7)) (Num 0.05) (Num 0.2) (Str ''PUT'') ''delta''
     = Some (Flt (Num 1))"
  by (simp add: brent_calculate_greeks_def Let_def)

subsection \<open>The market price a row is solved for\<close>





text \<open>
  Outside the statement above: a blank mid cell (NaN) is true for \<open>or\<close>, so on such a row
  the chain of grok.py stops at the blank cell although mark and last hold numbers.
\<close>

lemma blank_mid_is_selected:
  "grok_market_price (map_of [(''mid'', Flt NaN), (''mark'', Flt (Num 2)), (''last'', Flt (Num 3))]) = Flt NaN"
  by (simp add: grok_market_price_def py_or_def row_get_def truthy_def)

subsection \<open>A market price that is not positive\<close>

lemma list_ex_param_rejected_price:
  "p \<le> 0 \<Longrightarrow> list_ex param_rejected [S, K, T, r, Flt (Num p)]"
  by (simp add: param_rejected_def)

text \<open>
  Claim C9. A market price \<open>p \<le> 0\<close> never yields a numeric implied volatility:
  \<open>calculate_implied_volatility\<close> of brent_bs.py returns \<open>None\<close> and its row is skipped,
  \<open>closed_form_iv\<close> of hybrid_one.py returns NaN, and \<open>process_row\<close> of grok.py and of
  hybrid_one.py returns \<open>None\<close> before any solver is called.
\<close>

theorem non_positive_price_fails:
  assumes "p \<le> 0"
  shows "calculate_implied_volatility brentq (Num p) S K T r option_type = None
       \<and> closed_form_iv S K T r ot (Num p) = NaN
       \<and> (brent_market_price row = Flt (Num p) \<longrightarrow> (\<exists>reason. brent_process_row brentq row = Inl reason))
       \<and> (grok_market_price row = Flt (Num p) \<longrightarrow> grok_process_row newton row = None)
       \<and> (hybrid_market_price row = Flt (Num p) \<longrightarrow> hybrid_process_row brentq row = None)"
proof (intro conjI impI)
  show "calculate_implied_volatility brentq (Num p) S K T r option_type = None"
    using assms by (simp add: calculate_implied_volatility_def)
  show "closed_form_iv S K T r ot (Num p) = NaN"
    using assms by (simp add: closed_form_iv_def)
next
  assume mp: "brent_market_price row = Flt (Num p)"
  have iv: "\<And>S' K' T' r'. calculate_implied_volatility brentq (Num p) S' K' T' r' (row_get row ''putCall'') = None"
    using assms by (simp add: calculate_implied_volatility_def)
  show "\<exists>reason. brent_process_row brentq row = Inl reason"
    by (simp add: brent_process_row_def Let_def mp iv split: cell.splits)
next
  assume mp: "grok_market_price row = Flt (Num p)"
  show "grok_process_row newton row = None"
    using assms by (simp add: grok_process_row_def Let_def mp param_rejected_def)
next
  assume mp: "hybrid_market_price row = Flt (Num p)"
  show "hybrid_process_row brentq row = None"
    using assms by (simp add: hybrid_process_row_def Let_def mp param_rejected_def)
qed

lemmas row_eval = row_get_def truthy_def py_or_def param_rejected_def is_null_def
  grok_market_price_def hybrid_market_price_def brent_market_price_def

theorem non_positive_price_fails_witness:
  "calculate_implied_volatility (\<lambda>f a b xtol. Inr (Num 0.2)) (Num (- 1)) (Num 100) (Num 90) (Num 1) (Num 0.05) (Str ''CALL'') = None
   \<and> closed_form_iv (Num 100) (Num 90) (Num 1) (Num 0.05) ''CALL'' (Num (- 1)) = NaN
   \<and> brent_process_row (\<lambda>f a b xtol. Inr (Num 0.2))
        (map_of [(''expirationDate'', Str ''2025-01-17''), (''spotPrice'', Flt (Num 100)),
                 (''strikePrice'', Flt (Num 90)), (''T'', Flt (Num 1)), (''SOFR'', Flt (Num 0.05)),
                 (''putCall'', Str ''CALL''), (''mid'', Flt (Num 0)), (''last'', Flt (Num (- 1)))])
       = Inl Failed_IV
   \<and> grok_process_row (\<lambda>f x0 fprime tol maxiter. Inr (Num 0.2))
        (map_of [(''expirationDate'', Str ''2025-01-17''), (''spotPrice'', Flt (Num 100)),
                 (''strikePrice'', Flt (Num 90)), (''T'', Flt (Num 1)), (''SOFR'', Flt (Num 0.05)),
                 (''putCall'', Str ''CALL''), (''mid'', Flt (Num 0)), (''last'', Flt (Num (- 1)))])
       = None
   \<and> hybrid_process_row (\<lambda>f a b xtol. Inr (Num 0.2))
        (map_of [(''expirationDate'', Str ''2025-01-17''), (''spotPrice'', Flt (Num 100)),
                 (''strikePrice'', Flt (Num 90)), (''T'', Flt (Num 1)), (''SOFR'', Flt (Num 0.05)),
                 (''putCall'', Str ''CALL''), (''mid'', Flt (Num 0)), (''last'', Flt (Num (- 1)))])
       = None"
proof -
  let ?row = "map_of [(''expirationDate'', Str ''2025-01-17''), (''spotPrice'', Flt (Num 100)),
                 (''strikePrice'', Flt (Num 90)), (''T'', Flt (Num 1)), (''SOFR'', Flt (Num 0.05)),
                 (''putCall'', Str ''CALL''), (''mid'', Flt (Num 0)), (''last'', Flt (Num (- 1)))]"
  let ?bq = "(\<lambda>f a b xtol. Inr (Num 0.2)) :: brentq_fn"
  let ?nw = "(\<lambda>f x0 fprime tol maxiter. Inr (Num 0.2)) :: newton_fn"
  have neg: "(- 1 :: real) \<le> 0" by simp
  have b: "brent_market_price ?row = Flt (Num (- 1))" by (simp add: row_eval)
  have g: "grok_market_price ?row = Flt (Num (- 1))" by (simp add: row_eval)
  have h: "hybrid_market_price ?row = Flt (Num (- 1))" by (simp add: row_eval)
  note inst = non_positive_price_fails[OF neg, of ?bq "Num 100" "Num 90" "Num 1" "Num 0.05" "Str ''CALL''" "''CALL''" ?row ?nw]
  have "brent_process_row ?bq ?row = Inl Failed_IV"
    by (simp add: brent_process_row_def Let_def row_eval calculate_implied_volatility_def)
  with inst b g h show ?thesis by simp
qed

subsection \<open>A market price at or below intrinsic value\<close>

lemma grok_implied_volatility_positive:
  assumes "grok_implied_volatility newton price S K T r option_type = Inr (Num x)"
  shows "0 < x \<and> x \<le> 10"
  using assms
  by (auto simp: grok_implied_volatility_def Let_def split: sum.splits if_splits pyfloat.splits)

text \<open>
  Claim C2, as amended. For \<open>S, K, T > 0\<close> and a market price that is positive and at or
  below the intrinsic value, \<open>closed_form_iv\<close> of hybrid_one.py returns exactly 0.0, and
  \<open>refine_iv\<close> then returns what Brent's method finds in [1e-6, 1], or 0.0 when it raises.
  The other two strategies have no rule for the intrinsic value: \<open>implied_volatility\<close> of
  grok.py returns only numbers in (0, 10] (anything else becomes NaN), and
  \<open>calculate_implied_volatility\<close> of brent_bs.py returns what Brent's method finds in
  [1e-6, 10], or \<open>None\<close> when it raises.
\<close>

theorem price_at_or_below_intrinsic:
  assumes "0 < S" "0 < K" "0 < T" "0 < p"
    and "p \<le> (if upper option_type = ''CALL'' then max 0 (S - K) else max 0 (K - S))"
  shows "closed_form_iv (Num S) (Num K) (Num T) r option_type (Num p) = Num 0
       \<and> refine_iv brentq (Num S) (Num K) (Num T) r option_type (Num p) (Num 0) =
           (case brentq (\<lambda>sigma. Inr (hybrid_black_scholes_price (Num S) (Num K) (Num T) r sigma option_type - Num p))
                   (Num (1 / 10 ^ 6)) (Num 1) (Num (1 / 10 ^ 8)) of
              Inr refined_iv \<Rightarrow> refined_iv
            | Inl e \<Rightarrow> Num 0)
       \<and> (\<forall>x. grok_implied_volatility newton (Num p) (Num S) (Num K) (Num T) r option_type = Inr (Num x)
              \<longrightarrow> 0 < x \<and> x \<le> 10)
       \<and> calculate_implied_volatility brentq (Num p) (Num S) (Num K) (Num T) r (Str option_type) =
           (case brentq (\<lambda>sigma. case brent_black_scholes_price (Num S) (Num K) (Num T) r (Str option_type) sigma of
                                    None \<Rightarrow> Inl TypeError
                                  | Some price \<Rightarrow> Inr (price - Num p))
                   (Num (1 / 10 ^ 6)) (Num 10) (Num (1 / 10 ^ 5)) of
              Inr x \<Rightarrow> Some x
            | Inl e \<Rightarrow> None)"
proof (intro conjI allI impI)
  show "closed_form_iv (Num S) (Num K) (Num T) r option_type (Num p) = Num 0"
    using assms by (auto simp: closed_form_iv_def py_max_def Let_def max_def split: if_splits)
  show "refine_iv brentq (Num S) (Num K) (Num T) r option_type (Num p) (Num 0) =
           (case brentq (\<lambda>sigma. Inr (hybrid_black_scholes_price (Num S) (Num K) (Num T) r sigma option_type - Num p))
                   (Num (1 / 10 ^ 6)) (Num 1) (Num (1 / 10 ^ 8)) of
              Inr refined_iv \<Rightarrow> refined_iv
            | Inl e \<Rightarrow> Num 0)"
    by (simp add: refine_iv_def py_max_def py_min_def Let_def)
  show "calculate_implied_volatility brentq (Num p) (Num S) (Num K) (Num T) r (Str option_type) =
           (case brentq (\<lambda>sigma. case brent_black_scholes_price (Num S) (Num K) (Num T) r (Str option_type) sigma of
                                    None \<Rightarrow> Inl TypeError
                                  | Some price \<Rightarrow> Inr (price - Num p))
                   (Num (1 / 10 ^ 6)) (Num 10) (Num (1 / 10 ^ 5)) of
              Inr x \<Rightarrow> Some x
            | Inl e \<Rightarrow> None)"
    using assms by (simp add: calculate_implied_volatility_def Let_def)
next
  fix x
  assume "grok_implied_volatility newton (Num p) (Num S) (Num K) (Num T) r option_type = Inr (Num x)"
  then show "0 < x" "x \<le> 10"
    using grok_implied_volatility_positive by blast+
qed

theorem price_at_or_below_intrinsic_witness:
  "closed_form_iv (Num 100) (Num 90) (Num 1) (Num 0.05) ''CALL'' (Num 5) = Num 0
   \<and> refine_iv (\<lambda>f a b xtol. Inl ValueError) (Num 100) (Num 90) (Num 1) (Num 0.05) ''CALL'' (Num 5) (Num 0) = Num 0
   \<and> grok_implied_volatility (\<lambda>f x0 fprime tol maxiter. Inr (Num 0)) (Num 5) (Num 100) (Num 90) (Num 1) (Num 0.05) ''CALL''
       = Inr NaN
   \<and> calculate_implied_volatility (\<lambda>f a b xtol. Inl ValueError) (Num 5) (Num 100) (Num 90) (Num 1) (Num 0.05) (Str ''CALL'')
       = None"
proof -
  have h: "(0::real) < 100" "(0::real) < 90" "(0::real) < 1" "(0::real) < 5"
    "(5::real) \<le> (if upper ''CALL'' = ''CALL'' then max 0 (100 - 90) else max 0 (90 - 100))"
    by (simp_all add: upper_CALL)
  note inst = price_at_or_below_intrinsic[OF h, of "Num 0.05" "(\<lambda>f a b xtol. Inl ValueError)" "(\<lambda>f x0 fprime tol maxiter. Inr (Num 0))"]
  have "grok_implied_volatility (\<lambda>f x0 fprime tol maxiter. Inr (Num 0)) (Num 5) (Num 100) (Num 90) (Num 1) (Num 0.05) ''CALL''
       = Inr NaN"
    by (simp add: grok_implied_volatility_def Let_def)
  with inst show ?thesis by simp
qed

text \<open>
  A call with S = 100, K = 90, T = 1, r = 0.05 and the price 5, below the intrinsic value 10:
  whatever Newton's method does, \<open>implied_volatility\<close> of grok.py does not return 0.0.
\<close>

theorem grok_never_returns_zero:
  "(0::real) < 5 \<and> (5::real) \<le> max 0 (100 - 90)
   \<and> \<not> (\<exists>newton. grok_implied_volatility newton (Num 5) (Num 100) (Num 90) (Num 1) (Num 0.05) ''CALL'' = Inr (Num 0))"
proof -
  have "\<not> (\<exists>newton. grok_implied_volatility newton (Num 5) (Num 100) (Num 90) (Num 1) (Num 0.05) ''CALL'' = Inr (Num 0))"
  proof
    assume "\<exists>newton. grok_implied_volatility newton (Num 5) (Num 100) (Num 90) (Num 1) (Num 0.05) ''CALL'' = Inr (Num 0)"
    then obtain newton where "grok_implied_volatility newton (Num 5) (Num 100) (Num 90) (Num 1) (Num 0.05) ''CALL'' = Inr (Num 0)"
      by blast
    then have "(0::real) < 0" using grok_implied_volatility_positive by blast
    then show False by simp
  qed
  then show ?thesis by simp
qed

section \<open>Properties of the exposures\<close>

lemma py_round_0: "py_round 0 = 0"
  by (simp add: py_round_def)

lemma isfinite_iff: "isfinite a \<longleftrightarrow> (\<exists>x. a = DNum x)"
  by (cases a) (simp_all add: isfinite_def)

lemma fmul_zero_left: "fl 0 = DNum 0 \<Longrightarrow> fmul fl (DNum 0) (DNum y) = DNum 0"
  by (simp add: fmul_def)

lemma fmul_zero_right: "fl 0 = DNum 0 \<Longrightarrow> fmul fl (DNum x) (DNum 0) = DNum 0"
  by (simp add: fmul_def)

lemma fdiv_zero: "fl 0 = DNum 0 \<Longrightarrow> fdiv fl (DNum 0) divisor = DNum 0"
  by (simp add: fdiv_def)

lemma round3_zero: "fl 0 = DNum 0 \<Longrightarrow> round3 fl (DNum 0) = DNum 0"
  by (simp add: round3_def py_round_0)

lemma fmul_NaN_left: "fmul fl DNaN b = DNaN"
  by (simp add: fmul_def)

lemma row_exposures_zero_open_interest:
  assumes zero: "fl 0 = DNum 0"
    and oi: "openInterest c = DNum 0"
    and fin: "isfinite (delta c)" "isfinite (gamma c)" "isfinite (vanna c)" "isfinite (charm c)"
      "isfinite (spotPrice c)" "isfinite (impliedVolatility c)"
    and square: "isfinite (fmul fl (spotPrice c) (spotPrice c))"
  shows "row_exposures fl c = \<lparr>DEX = DNum 0, GEX = DNum 0, VEX = DNum 0, CEX = DNum 0\<rparr>"
proof -
  from fin obtain d g v ch s iv where n: "delta c = DNum d" "gamma c = DNum g" "vanna c = DNum v"
    "charm c = DNum ch" "spotPrice c = DNum s" "impliedVolatility c = DNum iv"
    unfolding isfinite_iff by blast
  from square obtain q where q: "fmul fl (DNum s) (DNum s) = DNum q"
    unfolding isfinite_iff n by blast
  note z = fmul_zero_left[of fl, OF zero] fmul_zero_right[of fl, OF zero]
    fdiv_zero[of fl, OF zero] round3_zero[of fl, OF zero]
  show ?thesis
    unfolding row_exposures_def Let_def n oi by (simp only: z q if_cancel)
qed

text \<open>
  Claim C7, as amended. A row whose open interest is 0 gets DEX, GEX, VEX and CEX exactly
  0, for a call and a put alike, whenever its delta, gamma, vanna, charm, spot price and
  implied volatility are finite numbers (not NaN and not infinite) and the square of the
  spot price does not overflow. Of the rounding of the arithmetic only this is used: zero is
  a double.
\<close>

theorem zero_open_interest_zero_exposure:
  assumes "calculate_exposures fl columns df = Some out" and "(c, e) \<in> set out"
    and "fl 0 = DNum 0"
    and "openInterest c = DNum 0"
    and "isfinite (delta c)" "isfinite (gamma c)" "isfinite (vanna c)" "isfinite (charm c)"
    and "isfinite (spotPrice c)" "isfinite (impliedVolatility c)"
    and "isfinite (fmul fl (spotPrice c) (spotPrice c))"
  shows "DEX e = DNum 0 \<and> GEX e = DNum 0 \<and> VEX e = DNum 0 \<and> CEX e = DNum 0"
proof -
  from assms(1,2) have "e = row_exposures fl c"
    by (auto simp: calculate_exposures_def Let_def split: if_splits)
  then show ?thesis
    using row_exposures_zero_open_interest[OF assms(3-)] by simp
qed

theorem zero_open_interest_zero_exposure_witness:
  "calculate_exposures
     (\<lambda>x. if 2 ^ 1024 \<le> x then DPosInf else if x \<le> - (2 ^ 1024) then DNegInf else DNum x)
     required_columns
     [\<lparr>delta = DNum 0.5, gamma = DNum 0.01, vanna = DNum 0.2, charm = DNum (- 0.3), spotPrice = DNum 5000,
       openInterest = DNum 0, putCall = ''PUT'', impliedVolatility = DNum 0.2\<rparr>]
   = Some [(\<lparr>delta = DNum 0.5, gamma = DNum 0.01, vanna = DNum 0.2, charm = DNum (- 0.3), spotPrice = DNum 5000,
             openInterest = DNum 0, putCall = ''PUT'', impliedVolatility = DNum 0.2\<rparr>,
            \<lparr>DEX = DNum 0, GEX = DNum 0, VEX = DNum 0, CEX = DNum 0\<rparr>)]"
proof -
  let ?fl = "(\<lambda>x. if 2 ^ 1024 \<le> x then DPosInf else if x \<le> - (2 ^ 1024) then DNegInf else DNum x) :: rounding"
  let ?c = "\<lparr>delta = DNum 0.5, gamma = DNum 0.01, vanna = DNum 0.2, charm = DNum (- 0.3), spotPrice = DNum 5000,
       openInterest = DNum 0, putCall = ''PUT'', impliedVolatility = DNum 0.2\<rparr>"
  have out: "calculate_exposures ?fl required_columns [?c] = Some [(?c, row_exposures ?fl ?c)]"
    by (simp add: calculate_exposures_def Let_def)
  have mem: "(?c, row_exposures ?fl ?c) \<in> set [(?c, row_exposures ?fl ?c)]" by simp
  have zero: "?fl 0 = DNum 0" by simp
  have square: "isfinite (fmul ?fl (spotPrice ?c) (spotPrice ?c))"
    by (simp add: fmul_def isfinite_def)
  have "DEX (row_exposures ?fl ?c) = DNum 0 \<and> GEX (row_exposures ?fl ?c) = DNum 0
        \<and> VEX (row_exposures ?fl ?c) = DNum 0 \<and> CEX (row_exposures ?fl ?c) = DNum 0"
    by (rule zero_open_interest_zero_exposure[of ?fl, OF out mem zero _ _ _ _ _ _ _ square])
       (simp_all add: isfinite_def)
  then have "row_exposures ?fl ?c = \<lparr>DEX = DNum 0, GEX = DNum 0, VEX = DNum 0, CEX = DNum 0\<rparr>"
    by (cases "row_exposures ?fl ?c") simp
  with out show ?thesis by simp
qed

text \<open>
  Two rows with open interest 0 whose exposures are not all 0. A row whose delta is NaN
  (a contract whose Greeks could not be computed) gets the DEX NaN, whatever the rounding.
  A row whose spot price is so large that its square is out of range (here 2^600, with a
  rounding that answers an infinity from 2^1024 on) gets the GEX NaN, as zero times
  infinity is.
\<close>

theorem nan_or_overflow_gives_nan_exposure:
  "(\<forall>fl. calculate_exposures fl required_columns
            [\<lparr>delta = DNaN, gamma = DNum 0.01, vanna = DNum 0.2, charm = DNum (- 0.3),
              spotPrice = DNum 5000, openInterest = DNum 0, putCall = ''CALL'',
              impliedVolatility = DNum 0.2\<rparr>]
          = Some [(\<lparr>delta = DNaN, gamma = DNum 0.01, vanna = DNum 0.2, charm = DNum (- 0.3),
                    spotPrice = DNum 5000, openInterest = DNum 0, putCall = ''CALL'',
                    impliedVolatility = DNum 0.2\<rparr>,
                   row_exposures fl
                     \<lparr>delta = DNaN, gamma = DNum 0.01, vanna = DNum 0.2, charm = DNum (- 0.3),
                      spotPrice = DNum 5000, openInterest = DNum 0, putCall = ''CALL'',
                      impliedVolatility = DNum 0.2\<rparr>)]
        \<and> DEX (row_exposures fl
                  \<lparr>delta = DNaN, gamma = DNum 0.01, vanna = DNum 0.2, charm = DNum (- 0.3),
                   spotPrice = DNum 5000, openInterest = DNum 0, putCall = ''CALL'',
                   impliedVolatility = DNum 0.2\<rparr>) = DNaN)
   \<and> GEX (row_exposures
             (\<lambda>x. if 2 ^ 1024 \<le> x then DPosInf else if x \<le> - (2 ^ 1024) then DNegInf else DNum x)
             \<lparr>delta = DNum 0.5, gamma = DNum 0.01, vanna = DNum 0.2, charm = DNum (- 0.3),
              spotPrice = DNum (2 ^ 600), openInterest = DNum 0, putCall = ''CALL'',
              impliedVolatility = DNum 0.2\<rparr>) = DNaN"
proof (intro conjI allI)
  fix fl :: rounding
  let ?c = "\<lparr>delta = DNaN, gamma = DNum 0.01, vanna = DNum 0.2, charm = DNum (- 0.3),
              spotPrice = DNum 5000, openInterest = DNum 0, putCall = ''CALL'',
              impliedVolatility = DNum 0.2\<rparr>"
  show "calculate_exposures fl required_columns [?c] = Some [(?c, row_exposures fl ?c)]"
    by (simp add: calculate_exposures_def Let_def)
  show "DEX (row_exposures fl ?c) = DNaN"
    by (simp add: row_exposures_def fmul_NaN_left fdiv_def round3_def)
next
  let ?fl = "(\<lambda>x. if 2 ^ 1024 \<le> x then DPosInf else if x \<le> - (2 ^ 1024) then DNegInf else DNum x) :: rounding"
  have big: "(2::real) ^ 1024 \<le> 2 ^ 600 * 2 ^ 600"
  proof -
    have "(2::real) ^ 600 * 2 ^ 600 = 2 ^ 1200" by (simp only: power_add[symmetric]) simp
    moreover have "(2::real) ^ 1024 \<le> 2 ^ 1200" by (rule power_increasing) simp_all
    ultimately show ?thesis by (simp only:)
  qed
  have sq: "fmul ?fl (DNum (2 ^ 600)) (DNum (2 ^ 600)) = DPosInf"
    using big by (simp only: fmul_def prod.case double.case if_True)
  have zero: "?fl 0 = DNum 0" by simp
  have g0: "fmul ?fl (DNum 0.01) (DNum 0) = DNum 0"
    by (rule fmul_zero_right[of ?fl, OF zero])
  have prod: "fmul ?fl (DNum 0) DPosInf = DNaN"
    by (simp add: fmul_def sign_of_def)
  have "fmul ?fl (fmul ?fl (fmul ?fl (DNum 0.01) (DNum 0))
              (fmul ?fl (DNum (2 ^ 600)) (DNum (2 ^ 600)))) (DNum 100) = DNaN"
    by (simp only: g0 sq prod fmul_NaN_left)
  then have "round3 ?fl (fdiv ?fl (fmul ?fl (fmul ?fl (fmul ?fl (DNum 0.01) (DNum 0))
              (fmul ?fl (DNum (2 ^ 600)) (DNum (2 ^ 600)))) (DNum 100)) 1000000) = DNaN"
    by (simp only: fdiv_def round3_def double.case)
  then show "GEX (row_exposures ?fl
             \<lparr>delta = DNum 0.5, gamma = DNum 0.01, vanna = DNum 0.2, charm = DNum (- 0.3),
              spotPrice = DNum (2 ^ 600), openInterest = DNum 0, putCall = ''CALL'',
              impliedVolatility = DNum 0.2\<rparr>) = DNaN"
    by (simp add: row_exposures_def Let_def upper_def char_upper_def del: power_numeral)
qed

section \<open>Properties of the ranking\<close>

subsection \<open>Grouping and sorting\<close>

lemma distinct_group_keys: "distinct (group_keys df)"
  by (simp add: group_keys_def)

lemma sorted_group_keys: "sorted (group_keys df)"
  by (simp add: group_keys_def)

lemma set_group_keys: "set (group_keys df) = {s. \<exists>v. (Num s, v) \<in> set df}"
  by (auto simp: group_keys_def split: pyfloat.splits)

lemma map_fst_groupby_sum: "map fst (groupby_sum df) = group_keys df"
  by (simp add: groupby_sum_def comp_def)

lemma length_groupby_sum: "length (groupby_sum df) = card {s. \<exists>v. (Num s, v) \<in> set df}"
proof -
  have "length (groupby_sum df) = length (group_keys df)" by (simp add: groupby_sum_def)
  also have "\<dots> = card (set (group_keys df))"
    by (simp add: distinct_card distinct_group_keys)
  finally show ?thesis by (simp add: set_group_keys)
qed

lemma mset_aggregated: "mset (aggregated df) = mset (groupby_sum df)"
  by (simp add: aggregated_def)

lemma length_aggregated: "length (aggregated df) = length (groupby_sum df)"
  by (simp add: aggregated_def)

lemma distinct_strikes_aggregated: "distinct (map fst (aggregated df))"
proof -
  have "mset (map fst (aggregated df)) = mset (map fst (groupby_sum df))"
    by (simp add: mset_aggregated)
  moreover have "distinct (map fst (groupby_sum df))"
    by (simp add: map_fst_groupby_sum distinct_group_keys)
  ultimately show ?thesis by (metis mset_eq_imp_distinct_iff)
qed

lemma sorted_uminus_rev: "sorted (map uminus (l :: real list)) = sorted (rev l)"
  by (simp add: sorted_map sorted_wrt_rev)

lemma map_neg_snd: "map (\<lambda>(strike, v). - v) xs = map uminus (map snd (xs :: (real \<times> real) list))"
  by (induction xs) auto

lemma map_comp_nth: "map (\<lambda>i. g (xs ! i)) [0 ..< length xs] = map g xs"
  by (rule nth_equalityI) auto

lemma values_aggregated: "map snd (aggregated df) = rev (sort (map snd (groupby_sum df)))"
proof -
  let ?vs = "map snd (aggregated df)"
  have "sorted (map (\<lambda>(strike, v). - v) (aggregated df))"
    unfolding aggregated_def by (rule sorted_sort_key)
  then have "sorted (map uminus ?vs)" by (simp only: map_neg_snd)
  then have "sorted (rev ?vs)" by (simp only: sorted_uminus_rev)
  moreover have "mset (rev ?vs) = mset (map snd (groupby_sum df))"
    by (simp add: mset_aggregated)
  ultimately have "sort (map snd (groupby_sum df)) = rev ?vs"
    by (metis properties_for_sort)
  then show ?thesis by simp
qed

subsection \<open>The two buckets\<close>

lemma Value_top_levels: "map Value (top_levels m df G n) = take n (map snd (aggregated df))"
proof -
  let ?rows = "take n (aggregated df)"
  have "map Value (top_levels m df G n) = map (\<lambda>i. snd (?rows ! i)) [0 ..< length ?rows]"
    by (simp add: top_levels_def Let_def level_def comp_def)
  also have "\<dots> = map snd ?rows" by (rule map_comp_nth)
  finally show ?thesis by (simp add: take_map)
qed

lemma Value_bottom_levels:
  "map Value (bottom_levels m df G n) = drop (length (aggregated df) - n) (map snd (aggregated df))"
proof -
  let ?rows = "drop (length (aggregated df) - n) (aggregated df)"
  have "map Value (bottom_levels m df G n) = map (\<lambda>i. snd (?rows ! i)) [0 ..< length ?rows]"
    by (simp add: bottom_levels_def Let_def level_def comp_def)
  also have "\<dots> = map snd ?rows" by (rule map_comp_nth)
  finally show ?thesis by (simp add: drop_map)
qed

lemma strike_top_levels: "map strikePrice (top_levels m df G n) = take n (map fst (aggregated df))"
proof -
  let ?rows = "take n (aggregated df)"
  have "map strikePrice (top_levels m df G n) = map (\<lambda>i. fst (?rows ! i)) [0 ..< length ?rows]"
    by (simp add: top_levels_def Let_def level_def comp_def)
  also have "\<dots> = map fst ?rows" by (rule map_comp_nth)
  finally show ?thesis by (simp add: take_map)
qed

lemma strike_bottom_levels:
  "map strikePrice (bottom_levels m df G n) = drop (length (aggregated df) - n) (map fst (aggregated df))"
proof -
  let ?rows = "drop (length (aggregated df) - n) (aggregated df)"
  have "map strikePrice (bottom_levels m df G n) = map (\<lambda>i. fst (?rows ! i)) [0 ..< length ?rows]"
    by (simp add: bottom_levels_def Let_def level_def comp_def)
  also have "\<dots> = map fst ?rows" by (rule map_comp_nth)
  finally show ?thesis by (simp add: drop_map)
qed

lemma Rank_top_levels:
  "map Rank (top_levels m df G n) =
     map (\<lambda>i. ''Call '' @ G @ '' '' @ str_nat (i + 1)) [0 ..< min (length (aggregated df)) n]"
  by (simp add: top_levels_def Let_def level_def comp_def)

lemma Rank_bottom_levels:
  "map Rank (bottom_levels m df G n) =
     map (\<lambda>i. ''Put '' @ G @ '' '' @ str_nat (n - i)) [0 ..< min (length (aggregated df)) n]"
proof -
  have "length (aggregated df) - (length (aggregated df) - n) = min (length (aggregated df)) n"
    by auto
  then show ?thesis
    by (simp add: bottom_levels_def Let_def level_def comp_def)
qed

lemma Greek_top_levels: "a \<in> set (top_levels m df G n) \<Longrightarrow> Greek a = G \<and> (\<exists>t. Rank a = ''Call '' @ t)"
  by (auto simp: top_levels_def Let_def level_def)

lemma Greek_bottom_levels: "b \<in> set (bottom_levels m df G n) \<Longrightarrow> Greek b = G \<and> (\<exists>t. Rank b = ''Put '' @ t)"
  by (auto simp: bottom_levels_def Let_def level_def)

lemma str_nat_digits:
  "str_nat 1 = ''1''" "str_nat 2 = ''2''" "str_nat 3 = ''3''" "str_nat 4 = ''4''" "str_nat 5 = ''5''"
  by (simp_all add: str_nat.simps digit_char_def)

lemma str_nat_Suc: "str_nat (Suc 0) = ''1''" "str_nat (Suc (Suc 0)) = ''2''"
  by (simp_all add: str_nat.simps digit_char_def)

lemma upt_5: "[0 ..< 5] = [0, 1, 2, 3, 4]"
  by (simp add: upt_conv_Cons)

text \<open>
  Claim C8. With 10 distinct strikes and \<open>top_n = 5\<close>, the values of \<open>top_levels\<close> are
  the 5 largest aggregated values, largest first, and the values of \<open>bottom_levels\<close> are
  the 5 smallest, also in descending order; the labels are \<open>Call G 1\<close> to \<open>Call G 5\<close> and
  \<open>Put G 5\<close> down to \<open>Put G 1\<close> for the exposure column \<open>G\<close>.
\<close>

theorem ranking_ten_strikes:
  assumes "card {s. \<exists>v. (Num s, v) \<in> set df} = 10"
  shows "map Value (top_levels m df G 5) = take 5 (rev (sort (map snd (groupby_sum df))))
       \<and> map Value (bottom_levels m df G 5) = rev (take 5 (sort (map snd (groupby_sum df))))
       \<and> map Rank (top_levels m df G 5) =
           [''Call '' @ G @ '' 1'', ''Call '' @ G @ '' 2'', ''Call '' @ G @ '' 3'',
            ''Call '' @ G @ '' 4'', ''Call '' @ G @ '' 5'']
       \<and> map Rank (bottom_levels m df G 5) =
           [''Put '' @ G @ '' 5'', ''Put '' @ G @ '' 4'', ''Put '' @ G @ '' 3'',
            ''Put '' @ G @ '' 2'', ''Put '' @ G @ '' 1'']
       \<and> rank_exposures m df G 5 = top_levels m df G 5 @ bottom_levels m df G 5"
proof -
  have len: "length (groupby_sum df) = 10" using assms by (simp add: length_groupby_sum)
  then have lagg: "length (aggregated df) = 10" by (simp add: length_aggregated)
  let ?vs = "sort (map snd (groupby_sum df))"
  have lvs: "length ?vs = 10" using len by simp
  have top: "map Value (top_levels m df G 5) = take 5 (rev ?vs)"
    by (simp add: Value_top_levels values_aggregated)
  have "map Value (bottom_levels m df G 5) = drop 5 (rev ?vs)"
    by (simp add: Value_bottom_levels values_aggregated lagg)
  also have "\<dots> = rev (take 5 ?vs)"
    using lvs by (simp add: drop_rev)
  finally have bottom: "map Value (bottom_levels m df G 5) = rev (take 5 ?vs)" .
  have rt: "map Rank (top_levels m df G 5) =
           [''Call '' @ G @ '' 1'', ''Call '' @ G @ '' 2'', ''Call '' @ G @ '' 3'',
            ''Call '' @ G @ '' 4'', ''Call '' @ G @ '' 5'']"
    by (simp add: Rank_top_levels lagg upt_5 str_nat_digits str_nat_Suc)
  have rb: "map Rank (bottom_levels m df G 5) =
           [''Put '' @ G @ '' 5'', ''Put '' @ G @ '' 4'', ''Put '' @ G @ '' 3'',
            ''Put '' @ G @ '' 2'', ''Put '' @ G @ '' 1'']"
    by (simp add: Rank_bottom_levels lagg upt_5 str_nat_digits str_nat_Suc)
  show ?thesis
    using top bottom rt rb by (simp add: rank_exposures_def)
qed

lemma distinct_take_drop_inter:
  assumes "distinct ss" "b \<le> a"
  shows "set (take a ss) \<inter> set (drop b ss) = set (take (a - b) (drop b ss))"
proof -
  have split: "take a ss = take b ss @ take (a - b) (drop b ss)"
    using assms(2) by (metis le_add_diff_inverse take_add)
  have "distinct (take b ss @ drop b ss)" using assms(1) by simp
  then have disj: "set (take b ss) \<inter> set (drop b ss) = {}" by (simp only: distinct_append) 
  have sub: "set (take (a - b) (drop b ss)) \<subseteq> set (drop b ss)" by (rule set_take_subset)
  show ?thesis unfolding split using disj sub by auto
qed

lemmas groupby_eval = groupby_sum_def group_keys_def group_sum_def

theorem ranking_ten_strikes_witness:
  "length (groupby_sum [(Num 1, Num 3), (Num 2, Num (- 7)), (Num 3, Num 12), (Num 4, Num 2),
                        (Num 5, Num (- 2)), (Num 6, Num 8), (Num 7, Num (- 11)), (Num 8, Num 6),
                        (Num 9, Num 1), (Num 10, Num (- 4))]) = 10
   \<and> map Value (top_levels 0.003 [(Num 1, Num 3), (Num 2, Num (- 7)), (Num 3, Num 12), (Num 4, Num 2),
                        (Num 5, Num (- 2)), (Num 6, Num 8), (Num 7, Num (- 11)), (Num 8, Num 6),
                        (Num 9, Num 1), (Num 10, Num (- 4))] ''GEX'' 5) = [12, 8, 6, 3, 2]
   \<and> map Value (bottom_levels 0.003 [(Num 1, Num 3), (Num 2, Num (- 7)), (Num 3, Num 12), (Num 4, Num 2),
                        (Num 5, Num (- 2)), (Num 6, Num 8), (Num 7, Num (- 11)), (Num 8, Num 6),
                        (Num 9, Num 1), (Num 10, Num (- 4))] ''GEX'' 5) = [1, - 2, - 4, - 7, - 11]
   \<and> map Rank (rank_exposures 0.003 [(Num 1, Num 3), (Num 2, Num (- 7)), (Num 3, Num 12), (Num 4, Num 2),
                        (Num 5, Num (- 2)), (Num 6, Num 8), (Num 7, Num (- 11)), (Num 8, Num 6),
                        (Num 9, Num 1), (Num 10, Num (- 4))] ''GEX'' 5)
       = [''Call GEX 1'', ''Call GEX 2'', ''Call GEX 3'', ''Call GEX 4'', ''Call GEX 5'',
          ''Put GEX 5'', ''Put GEX 4'', ''Put GEX 3'', ''Put GEX 2'', ''Put GEX 1'']"
proof -
  let ?df = "[(Num 1, Num 3), (Num 2, Num (- 7)), (Num 3, Num 12), (Num 4, Num 2),
              (Num 5, Num (- 2)), (Num 6, Num 8), (Num 7, Num (- 11)), (Num 8, Num 6),
              (Num 9, Num 1), (Num 10, Num (- 4))] :: (pyfloat \<times> pyfloat) list"
  have g: "groupby_sum ?df = [(1, 3), (2, - 7), (3, 12), (4, 2), (5, - 2), (6, 8), (7, - 11),
                              (8, 6), (9, 1), (10, - 4)]"
    by (simp add: groupby_eval)
  have len: "length (groupby_sum ?df) = 10" by (simp only: g) simp
  have card: "card {s. \<exists>v. (Num s, v) \<in> set ?df} = 10"
    using len by (simp only: length_groupby_sum)
  have vs: "sort (map snd (groupby_sum ?df)) = [- 11, - 7, - 4, - 2, 1, 2, 3, 6, 8, 12]"
    by (simp only: g) simp
  note inst = ranking_ten_strikes[OF card, of "0.003" "''GEX''", unfolded vs]
  show ?thesis
    using inst len by simp
qed

lemma strikes_top_levels:
  "strikePrice ` set (top_levels es df G n) = set (take n (map fst (aggregated df)))"
proof -
  have "set (map strikePrice (top_levels es df G n)) = set (take n (map fst (aggregated df)))"
    by (simp only: strike_top_levels)
  then show ?thesis by (simp only: set_map)
qed

lemma strikes_bottom_levels:
  "strikePrice ` set (bottom_levels es df G n) =
     set (drop (length (aggregated df) - n) (map fst (aggregated df)))"
proof -
  have "set (map strikePrice (bottom_levels es df G n)) =
          set (drop (length (aggregated df) - n) (map fst (aggregated df)))"
    by (simp only: strike_bottom_levels)
  then show ?thesis by (simp only: set_map)
qed

lemma overlap_length:
  fixes k n :: nat
  assumes "k < 2 * n"
  shows "min (k - (k - n)) (n - (k - n)) = (if k < n then k else 2 * n - k)"
  using assms by arith

lemma overlap_card:
  assumes "length (aggregated df) < 2 * n"
  shows "card (strikePrice ` set (top_levels es df G n) \<inter> strikePrice ` set (bottom_levels es df G n))
           = (if length (aggregated df) < n then length (aggregated df)
              else 2 * n - length (aggregated df))"
proof -
  let ?ss = "map fst (aggregated df)"
  let ?k = "length (aggregated df)"
  let ?mid = "take (n - (?k - n)) (drop (?k - n) ?ss)"
  have dist: "distinct ?ss" by (rule distinct_strikes_aggregated)
  have le: "?k - n \<le> n" using assms by arith
  have "set (take n ?ss) \<inter> set (drop (?k - n) ?ss) = set ?mid"
    by (rule distinct_take_drop_inter[OF dist le])
  then have I: "strikePrice ` set (top_levels es df G n) \<inter> strikePrice ` set (bottom_levels es df G n)
                  = set ?mid"
    by (simp only: strikes_top_levels strikes_bottom_levels)
  have "distinct ?mid" using dist by (intro distinct_take distinct_drop)
  then have "card (set ?mid) = length ?mid" by (rule distinct_card)
  also have "\<dots> = min (?k - (?k - n)) (n - (?k - n))"
    by (simp only: length_take length_drop length_map)
  also have "\<dots> = (if ?k < n then ?k else 2 * n - ?k)"
    by (rule overlap_length[OF assms])
  finally show ?thesis by (simp only: I)
qed

lemma overlap_duplicates:
  assumes "s \<in> strikePrice ` set (top_levels es df G n) \<inter> strikePrice ` set (bottom_levels es df G n)"
  shows "\<exists>a \<in> set (rank_exposures es df G n). \<exists>b \<in> set (rank_exposures es df G n).
           strikePrice a = s \<and> strikePrice b = s \<and> Greek a = Greek b \<and> Rank a \<noteq> Rank b"
proof -
  from assms have "s \<in> strikePrice ` set (top_levels es df G n)" by (rule IntD1)
  then obtain a where a: "a \<in> set (top_levels es df G n)" "strikePrice a = s"
    by (metis imageE)
  from assms have "s \<in> strikePrice ` set (bottom_levels es df G n)" by (rule IntD2)
  then obtain b where b: "b \<in> set (bottom_levels es df G n)" "strikePrice b = s"
    by (metis imageE)
  from Greek_top_levels[OF a(1)] obtain t where ta: "Greek a = G" "Rank a = ''Call '' @ t" by blast
  from Greek_bottom_levels[OF b(1)] obtain u where tb: "Greek b = G" "Rank b = ''Put '' @ u" by blast
  have ne: "Rank a \<noteq> Rank b" by (simp add: ta tb)
  have ina: "a \<in> set (rank_exposures es df G n)" using a(1) by (simp add: rank_exposures_def)
  have inb: "b \<in> set (rank_exposures es df G n)" using b(1) by (simp add: rank_exposures_def)
  have "strikePrice a = s \<and> strikePrice b = s \<and> Greek a = Greek b \<and> Rank a \<noteq> Rank b"
    using a(2) b(2) ta(1) tb(1) ne by simp
  then show ?thesis using ina inb by blast
qed

text \<open>
  Claim C10. With \<open>m\<close> distinct strikes and \<open>m < 2 * top_n\<close>, the strikes of \<open>top_levels\<close>
  and of \<open>bottom_levels\<close> overlap in \<open>2 * top_n - m\<close> strikes, or in all \<open>m\<close> when
  \<open>m < top_n\<close>. Each of these strikes occurs twice in the output of \<open>rank_exposures\<close>,
  with the same Greek and two different rank labels, and there is such a strike as soon as
  the series has a strike at all.
\<close>

theorem ranking_overlap:
  assumes small: "card {s. \<exists>v. (Num s, v) \<in> set df} < 2 * top_n"
  shows "card (strikePrice ` set (top_levels es df G top_n)
               \<inter> strikePrice ` set (bottom_levels es df G top_n))
           = (if card {s. \<exists>v. (Num s, v) \<in> set df} < top_n
              then card {s. \<exists>v. (Num s, v) \<in> set df}
              else 2 * top_n - card {s. \<exists>v. (Num s, v) \<in> set df})
       \<and> (\<forall>s \<in> strikePrice ` set (top_levels es df G top_n)
                 \<inter> strikePrice ` set (bottom_levels es df G top_n).
            \<exists>a \<in> set (rank_exposures es df G top_n). \<exists>b \<in> set (rank_exposures es df G top_n).
              strikePrice a = s \<and> strikePrice b = s \<and> Greek a = Greek b \<and> Rank a \<noteq> Rank b)
       \<and> (0 < card {s. \<exists>v. (Num s, v) \<in> set df} \<longrightarrow>
            strikePrice ` set (top_levels es df G top_n)
              \<inter> strikePrice ` set (bottom_levels es df G top_n) \<noteq> {})"
proof -
  let ?m = "card {s. \<exists>v. (Num s, v) \<in> set df}"
  let ?I = "strikePrice ` set (top_levels es df G top_n)
              \<inter> strikePrice ` set (bottom_levels es df G top_n)"
  have lagg: "length (aggregated df) = ?m"
    by (simp only: length_aggregated length_groupby_sum)
  have small': "length (aggregated df) < 2 * top_n" using small by (simp only: lagg)
  have c: "card ?I = (if ?m < top_n then ?m else 2 * top_n - ?m)"
    using overlap_card[OF small', of es G] by (simp only: lagg)
  have dup: "\<forall>s \<in> ?I. \<exists>a \<in> set (rank_exposures es df G top_n). \<exists>b \<in> set (rank_exposures es df G top_n).
              strikePrice a = s \<and> strikePrice b = s \<and> Greek a = Greek b \<and> Rank a \<noteq> Rank b"
    by (intro ballI overlap_duplicates)
  have ne: "0 < ?m \<longrightarrow> ?I \<noteq> {}"
  proof
    assume pos: "0 < ?m"
    have "0 < (if ?m < top_n then ?m else 2 * top_n - ?m)" using pos small by arith
    then have "0 < card ?I" by (simp only: c)
    then show "?I \<noteq> {}" by (metis card.empty less_numeral_extra(3))
  qed
  show ?thesis
    by (intro conjI) (rule c, rule dup, rule ne)
qed

theorem ranking_overlap_witness:
  "map strikePrice (top_levels 0.003 [(Num 1, Num 5), (Num 2, Num 7), (Num 3, Num (- 1))] ''GEX'' 2) = [2, 1]
   \<and> map strikePrice (bottom_levels 0.003 [(Num 1, Num 5), (Num 2, Num 7), (Num 3, Num (- 1))] ''GEX'' 2) = [1, 3]
   \<and> card (strikePrice ` set (top_levels 0.003 [(Num 1, Num 5), (Num 2, Num 7), (Num 3, Num (- 1))] ''GEX'' 2)
           \<inter> strikePrice ` set (bottom_levels 0.003 [(Num 1, Num 5), (Num 2, Num 7), (Num 3, Num (- 1))] ''GEX'' 2)) = 1
   \<and> map Rank (rank_exposures 0.003 [(Num 1, Num 5), (Num 2, Num 7), (Num 3, Num (- 1))] ''GEX'' 2)
       = [''Call GEX 1'', ''Call GEX 2'', ''Put GEX 2'', ''Put GEX 1'']"
proof -
  let ?df = "[(Num 1, Num 5), (Num 2, Num 7), (Num 3, Num (- 1))] :: (pyfloat \<times> pyfloat) list"
  have g: "groupby_sum ?df = [(1, 5), (2, 7), (3, - 1)]"
    by (simp add: groupby_eval)
  have agg: "aggregated ?df = [(2, 7), (1, 5), (3, - 1)]"
    by (simp add: aggregated_def g)
  have len: "length (groupby_sum ?df) = 3" by (simp only: g) simp
  have card: "card {s. \<exists>v. (Num s, v) \<in> set ?df} = 3"
    using len by (simp only: length_groupby_sum)
  have "(3::nat) < 2 * 2" by simp
  then have small: "card {s. \<exists>v. (Num s, v) \<in> set ?df} < 2 * 2"
    by (simp only: card)
  note inst = ranking_overlap[OF small, of "0.003" "''GEX''", unfolded card]
  have st: "map strikePrice (top_levels 0.003 ?df ''GEX'' 2) = [2, 1]"
    by (simp add: strike_top_levels agg)
  have sb: "map strikePrice (bottom_levels 0.003 ?df ''GEX'' 2) = [1, 3]"
    by (simp add: strike_bottom_levels agg)
  have rk: "map Rank (rank_exposures 0.003 ?df ''GEX'' 2)
       = [''Call GEX 1'', ''Call GEX 2'', ''Put GEX 2'', ''Put GEX 1'']"
    by (simp add: rank_exposures_def Rank_top_levels Rank_bottom_levels agg upt_conv_Cons
        str_nat_digits str_nat_Suc)
  have "(if (3::nat) < 2 then 3 else 2 * 2 - 3) = (1::nat)" by simp
  with inst have "card (strikePrice ` set (top_levels 0.003 ?df ''GEX'' 2)
           \<inter> strikePrice ` set (bottom_levels 0.003 ?df ''GEX'' 2)) = 1"
    by (simp only: )
  with st sb rk show ?thesis by (intro conjI)
qed

end
